theory Spec2Isabelle
  imports Complex_Main "HOL-Library.Signed_Division" "HOL-Library.Sublist"
begin

section \<open>Go primitives used by the program\<close>

text \<open>
  Go strings are byte sequences; they are modelled as \<open>string\<close> (a list of 8-bit
  characters). A \<open>float64\<close> is modelled as a \<open>real\<close>: every finite float64 is a
  real number, and the arithmetic the program does on it (one multiplication, one
  addition per use) is taken exactly, without rounding. Go's \<open>int\<close>, \<open>int64\<close> and
  \<open>time.Duration\<close> are modelled as \<open>int\<close>; no computation of the program leaves
  the 64-bit range as long as the float to integer conversions stay in range, which
  the theorems that depend on it assume.
\<close>

definition nl :: char where
  "nl = CHR 0x0A"

text \<open>
  The conversion \<open>int(x)\<close> of a float64 discards the fraction (truncation towards zero).
  Go leaves the result implementation-dependent when the truncated value does not fit
  the integer type; the model truncates everywhere.
\<close>

definition go_int :: "real \<Rightarrow> int" where
  "go_int x = (if 0 \<le> x then \<lfloor>x\<rfloor> else \<lceil>x\<rceil>)"

text \<open>Decimal digits of a natural number, as \<open>%d\<close> prints them.\<close>

definition digit :: "nat \<Rightarrow> char" where
  "digit d = ''0123456789'' ! d"

function showNat :: "nat \<Rightarrow> string" where
  "showNat n = (if n < 10 then [digit n] else showNat (n div 10) @ [digit (n mod 10)])"
  by pat_completeness auto
termination
  by (relation "measure (\<lambda>n. n)") auto

declare showNat.simps [simp del]

text \<open>\<open>fmt.Sprintf("%d", k)\<close>.\<close>

definition fmt_d :: "int \<Rightarrow> string" where
  "fmt_d k = (if k < 0 then CHR ''-'' # showNat (nat (- k)) else showNat (nat k))"

text \<open>
  \<open>fmt.Sprintf("%02d", k)\<close>: at least two characters, padded with zeros on the left;
  the sign of a negative number counts as one of them.
\<close>

definition fmt_02d :: "int \<Rightarrow> string" where
  "fmt_02d k =
     (if k < 0 then CHR ''-'' # showNat (nat (- k))
      else if k < 10 then CHR ''0'' # showNat (nat k)
      else showNat (nat k))"

subsection \<open>The package \<open>time\<close>\<close>

definition Nanosecond :: int where "Nanosecond = 1"
definition Second :: int where "Second = 1000000000 * Nanosecond"
definition Minute :: int where "Minute = 60 * Second"
definition Hour :: int where "Hour = 60 * Minute"

text \<open>
  \<open>Duration.Hours\<close>, \<open>Duration.Minutes\<close> and \<open>Duration.Seconds\<close> of the standard
  library: the integer quotient plus the remainder as a fraction. Go's \<open>/\<close> and
  \<open>%\<close> on integers truncate towards zero (\<open>sdiv\<close>, \<open>smod\<close>).
\<close>

definition Hours :: "int \<Rightarrow> real" where
  "Hours d = (let hour = d sdiv Hour; nsec = d smod Hour
              in real_of_int hour + real_of_int nsec / (60 * 60 * 1000000000))"

definition Minutes :: "int \<Rightarrow> real" where
  "Minutes d = (let min = d sdiv Minute; nsec = d smod Minute
                in real_of_int min + real_of_int nsec / (60 * 1000000000))"

definition Seconds :: "int \<Rightarrow> real" where
  "Seconds d = (let sec = d sdiv Second; nsec = d smod Second
                in real_of_int sec + real_of_int nsec / 1000000000)"

subsection \<open>The package \<open>strings\<close>\<close>

text \<open>
  \<open>strings.TrimSpace\<close> removes leading and trailing white space as \<open>unicode.IsSpace\<close>
  defines it. On a byte string that is: the six ASCII characters tab, line feed,
  vertical tab, form feed, carriage return and space, and the UTF-8 encodings of
  U+0085, U+00A0, U+1680, U+2000 to U+200A, U+2028, U+2029, U+202F, U+205F and U+3000.
  A byte that starts no such encoding decodes to a rune that is not a space and stops
  the trimming.
\<close>

definition spaceRunes :: "string list" where
  "spaceRunes =
     [[CHR 0x09], [CHR 0x0A], [CHR 0x0B], [CHR 0x0C], [CHR 0x0D], [CHR 0x20],
      [CHR 0xC2, CHR 0x85], [CHR 0xC2, CHR 0xA0],
      [CHR 0xE1, CHR 0x9A, CHR 0x80],
      [CHR 0xE2, CHR 0x80, CHR 0x80], [CHR 0xE2, CHR 0x80, CHR 0x81],
      [CHR 0xE2, CHR 0x80, CHR 0x82], [CHR 0xE2, CHR 0x80, CHR 0x83],
      [CHR 0xE2, CHR 0x80, CHR 0x84], [CHR 0xE2, CHR 0x80, CHR 0x85],
      [CHR 0xE2, CHR 0x80, CHR 0x86], [CHR 0xE2, CHR 0x80, CHR 0x87],
      [CHR 0xE2, CHR 0x80, CHR 0x88], [CHR 0xE2, CHR 0x80, CHR 0x89],
      [CHR 0xE2, CHR 0x80, CHR 0x8A],
      [CHR 0xE2, CHR 0x80, CHR 0xA8], [CHR 0xE2, CHR 0x80, CHR 0xA9],
      [CHR 0xE2, CHR 0x80, CHR 0xAF],
      [CHR 0xE2, CHR 0x81, CHR 0x9F],
      [CHR 0xE3, CHR 0x80, CHR 0x80]]"

function trimLeft :: "string \<Rightarrow> string" where
  "trimLeft s =
     (case find (\<lambda>p. prefix p s) spaceRunes of
        None \<Rightarrow> s
      | Some p \<Rightarrow> trimLeft (drop (length p) s))"
  by pat_completeness auto
termination
proof (relation "measure length")
  show "wf (measure length)" by simp
next
  fix s :: string and p :: string
  assume "find (\<lambda>p. prefix p s) spaceRunes = Some p"
  then have "p \<in> set spaceRunes" and "prefix p s"
    by (auto simp: find_Some_iff)
  then have "p \<noteq> []" and "length p \<le> length s"
    by (auto simp: spaceRunes_def prefix_length_le)
  then show "(drop (length p) s, s) \<in> measure length"
    by (cases s) auto
qed

function trimRight :: "string \<Rightarrow> string" where
  "trimRight s =
     (case find (\<lambda>p. suffix p s) spaceRunes of
        None \<Rightarrow> s
      | Some p \<Rightarrow> trimRight (take (length s - length p) s))"
  by pat_completeness auto
termination
proof (relation "measure length")
  show "wf (measure length)" by simp
next
  fix s :: string and p :: string
  assume "find (\<lambda>p. suffix p s) spaceRunes = Some p"
  then have "p \<in> set spaceRunes" and "suffix p s"
    by (auto simp: find_Some_iff)
  then have "p \<noteq> []" and "length p \<le> length s"
    by (auto simp: spaceRunes_def suffix_length_le)
  then show "(take (length s - length p) s, s) \<in> measure length"
    by (cases s) auto
qed

declare trimLeft.simps [simp del]
declare trimRight.simps [simp del]

definition TrimSpace :: "string \<Rightarrow> string" where
  "TrimSpace s = trimRight (trimLeft s)"

text \<open>\<open>strings.TrimSuffix\<close>.\<close>

definition TrimSuffix :: "string \<Rightarrow> string \<Rightarrow> string" where
  "TrimSuffix s suff = (if suffix suff s then take (length s - length suff) s else s)"

text \<open>
  \<open>filepath.Ext\<close>: the suffix that starts at the last dot of the last path element,
  empty when that element has no dot. The loop of the library runs from the last
  byte backwards; \<open>ExtLoop\<close> takes the bytes still to visit, reversed, and the bytes
  already visited.
\<close>

fun ExtLoop :: "string \<Rightarrow> string \<Rightarrow> string" where
  "ExtLoop [] visited = []"
| "ExtLoop (c # front) visited =
     (if c = CHR ''/'' then []
      else if c = CHR ''.'' then c # visited
      else ExtLoop front (c # visited))"

definition Ext :: "string \<Rightarrow> string" where
  "Ext path = ExtLoop (rev path) []"

section \<open>Timestamp formatting\<close>

text \<open>\<open>formatTimestamp\<close> (src/main.go, lines 228 to 234).\<close>

definition formatTimestamp :: "real \<Rightarrow> string" where
  "formatTimestamp seconds =
     (let duration = go_int (seconds * real_of_int Second);
          hours = go_int (Hours duration);
          minutes = go_int (Minutes duration) smod 60;
          secs = go_int (Seconds duration) smod 60
      in fmt_02d hours @ '':'' @ fmt_02d minutes @ '':'' @ fmt_02d secs)"

section \<open>Data model\<close>

text \<open>
  The structs of the synchronous programs (src/main.go and the chunking program of
  src/unnamed/part\_000). Field names carry the struct as a prefix.
\<close>

record DiarizedSegment =
  seg_Speaker :: string
  seg_Start :: real
  seg_End :: real
  seg_Text :: string

record TranscriptionResponse =
  resp_Text :: string
  resp_Segments :: "DiarizedSegment list"

text \<open>The structs of the asynchronous program (the first program of src/unnamed/part\_000).\<close>

record Utterance =
  utt_Speaker :: string
  utt_Start :: int
  utt_End :: int
  utt_Text :: string
  utt_Confidence :: real

record TranscriptionResponse_async =
  job_ID :: string
  job_Status :: string
  job_Text :: string
  job_Utterances :: "Utterance list"
  job_Error :: string

text \<open>A Go \<open>error\<close> value with its message, or a run-time panic.\<close>

datatype error = Error string | Panic string

text \<open>\<open>fmt.Errorf(pre + "%w", err)\<close>; a panic is not a value and passes through.\<close>

fun wrap :: "string \<Rightarrow> error \<Rightarrow> error" where
  "wrap pre (Error m) = Error (pre @ m)"
| "wrap pre (Panic m) = Panic m"

section \<open>The renderer\<close>

text \<open>
  \<open>saveTranscription\<close> (src/main.go, lines 188 to 225; the same text in the chunking
  program). The loop over the segments carries the builder \<open>output\<close> and
  \<open>currentSpeaker\<close>.
\<close>

fun saveLoop :: "DiarizedSegment list \<Rightarrow> string \<times> string \<Rightarrow> string \<times> string" where
  "saveLoop [] (output, currentSpeaker) = (output, currentSpeaker)"
| "saveLoop (segment # rest) (output, currentSpeaker) =
     (let startTime = formatTimestamp (seg_Start segment);
          endTime = formatTimestamp (seg_End segment);
          speaker = (if seg_Speaker segment = [] then ''Unknown'' else seg_Speaker segment);
          (output1, currentSpeaker1) =
            (if speaker \<noteq> currentSpeaker
             then ((if currentSpeaker \<noteq> [] then output @ [nl] else output)
                     @ ''['' @ startTime @ '' - '' @ endTime @ ''] '' @ speaker @ '':'' @ [nl],
                   speaker)
             else (output @ ''['' @ startTime @ '' - '' @ endTime @ ''] '', currentSpeaker));
          output2 = output1 @ TrimSpace (seg_Text segment);
          output3 = output2 @ [nl]
      in saveLoop rest (output3, currentSpeaker1))"

text \<open>The text that \<open>saveTranscription\<close> hands to \<open>os.WriteFile\<close>.\<close>

definition saveTranscription_output :: "TranscriptionResponse \<Rightarrow> string" where
  "saveTranscription_output transcription =
     (if length (resp_Segments transcription) > 0
      then fst (saveLoop (resp_Segments transcription) ([], []))
      else resp_Text transcription @ [nl])"

text \<open>
  \<open>saveTranscription\<close> of the asynchronous program (src/unnamed/part\_000, lines 262 to
  299): the timestamps are integer milliseconds and the header reads \<open>Speaker\<close> before
  the label.
\<close>

fun saveLoop_async :: "Utterance list \<Rightarrow> string \<times> string \<Rightarrow> string \<times> string" where
  "saveLoop_async [] (output, currentSpeaker) = (output, currentSpeaker)"
| "saveLoop_async (utterance # rest) (output, currentSpeaker) =
     (let startTime = formatTimestamp (real_of_int (utt_Start utterance) / 1000);
          endTime = formatTimestamp (real_of_int (utt_End utterance) / 1000);
          speaker = (if utt_Speaker utterance = [] then ''Unknown'' else utt_Speaker utterance);
          (output1, currentSpeaker1) =
            (if speaker \<noteq> currentSpeaker
             then ((if currentSpeaker \<noteq> [] then output @ [nl] else output)
                     @ ''['' @ startTime @ '' - '' @ endTime @ ''] Speaker '' @ speaker @ '':''
                     @ [nl],
                   speaker)
             else (output @ ''['' @ startTime @ '' - '' @ endTime @ ''] '', currentSpeaker));
          output2 = output1 @ TrimSpace (utt_Text utterance);
          output3 = output2 @ [nl]
      in saveLoop_async rest (output3, currentSpeaker1))"

definition saveTranscription_output_async :: "TranscriptionResponse_async \<Rightarrow> string" where
  "saveTranscription_output_async transcription =
     (if length (job_Utterances transcription) > 0
      then fst (saveLoop_async (job_Utterances transcription) ([], []))
      else job_Text transcription @ [nl])"

section \<open>The outside world\<close>

text \<open>
  Everything the program gets from outside (the file system, the media tools, the
  remote services, the JSON decoder) is an oracle of the environment: for each request
  the outcome the program observes. The theorems hold for every environment.
\<close>

type_synonym path = string

datatype probe_outcome = ProbeRunFailed string | ProbeScanFailed string | ProbeDuration real

text \<open>The steps of a remote call that can fail before a response has been read.\<close>

datatype transcribe_step =
  OpenAudioFile | CreateFormFile | CopyFile | WriteModelField | WriteResponseFormatField
  | WriteChunkingStrategyField | CloseWriter | CreateRequest | SendRequest | ReadResponse

datatype upload_step =
  UploadOpenAudioFile | UploadCreateRequest | UploadSendRequest | UploadReadResponse

datatype submit_step =
  SubmitMarshalRequest | SubmitCreateRequest | SubmitSendRequest | SubmitReadResponse

datatype poll_step = PollCreateRequest | PollSendRequest | PollReadResponse

record env =
  godotenv_Load :: "string option"
  os_Getenv :: "string \<Rightarrow> string"
  os_Stat_IsNotExist :: "path \<Rightarrow> bool"
  os_CreateTemp :: "string \<Rightarrow> string + path"
  os_WriteFile :: "path \<Rightarrow> string \<Rightarrow> string option"
  ffmpeg_convert :: "path \<Rightarrow> path \<Rightarrow> (string \<times> string) option"
  ffprobe :: "path \<Rightarrow> probe_outcome"
  ffmpeg_extract :: "path \<Rightarrow> int \<Rightarrow> int \<Rightarrow> path \<Rightarrow> (string \<times> string) option"
  openai_post :: "path \<Rightarrow> string \<Rightarrow> (transcribe_step \<times> string) + (int \<times> string)"
  json_Unmarshal :: "string \<Rightarrow> string + TranscriptionResponse"
  assembly_upload :: "path \<Rightarrow> string \<Rightarrow> (upload_step \<times> string) + (int \<times> string)"
  json_Unmarshal_upload :: "string \<Rightarrow> string + string"
  assembly_submit :: "string \<Rightarrow> string \<Rightarrow> (submit_step \<times> string) + (int \<times> string)"
  assembly_poll :: "string \<Rightarrow> string \<Rightarrow> nat \<Rightarrow> (poll_step \<times> string) + (int \<times> string)"
  json_Unmarshal_job ::
    "string \<Rightarrow> TranscriptionResponse_async \<Rightarrow> string + TranscriptionResponse_async"

text \<open>
  \<^item> \<open>godotenv_Load\<close>, \<open>os_WriteFile\<close>: the error, if any.
  \<^item> \<open>os_CreateTemp\<close>: for a name pattern, the error or the path of the file created.
  \<^item> \<open>ffmpeg_convert\<close>, \<open>ffmpeg_extract\<close>: on failure the error of \<open>cmd.Run\<close> and the
    captured standard error.
  \<^item> \<open>ffprobe\<close>: the outcome of running the prober and scanning its output as a float.
  \<^item> \<open>openai_post\<close>, \<open>assembly_upload\<close>, \<open>assembly_submit\<close>: for the request and
    the API key, the first step that fails with its error, or the HTTP status code and
    the body of the response. \<open>assembly_poll\<close> takes the number of polls made before.
  \<^item> \<open>json_Unmarshal_job\<close> decodes into the struct it is given, as \<open>json.Unmarshal\<close>
    does: the fields the document lacks keep their values.
\<close>

text \<open>
  What the program changes outside itself: the files that exist, the calls of the
  synchronous transcription client (the audio file of each), the start offset and the
  length requested from each chunk extraction, the pauses of the poll loop, and the
  output files written with their contents.
\<close>

record world =
  files :: "path set"
  calls :: "path list"
  extractions :: "(int \<times> int) list"
  sleeps :: "int list"
  written :: "(path \<times> string) list"

definition os_Remove :: "path \<Rightarrow> world \<Rightarrow> world" where
  "os_Remove name w = w\<lparr>files := files w - {name}\<rparr>"

text \<open>\<open>for _, chunk := range chunks { os.Remove(chunk) }\<close>\<close>

fun removeChunks :: "path list \<Rightarrow> world \<Rightarrow> world" where
  "removeChunks [] w = w"
| "removeChunks (chunk # rest) w = removeChunks rest (os_Remove chunk w)"

section \<open>The chunking program\<close>

text \<open>The second program of src/unnamed/part\_000 (lines 309 to 677).\<close>

definition maxDuration :: int where
  "maxDuration = 1400"

definition chunkDuration :: int where
  "chunkDuration = 1200"

definition getAudioDuration :: "env \<Rightarrow> path \<Rightarrow> error + real" where
  "getAudioDuration env audioFile =
     (case ffprobe env audioFile of
        ProbeRunFailed e \<Rightarrow> Inl (Error (''ffprobe failed: '' @ e))
      | ProbeScanFailed e \<Rightarrow> Inl (Error (''failed to parse duration: '' @ e))
      | ProbeDuration duration \<Rightarrow> Inr duration)"

text \<open>The loop of \<open>splitAudioIntoChunks\<close> (lines 440 to 470), from index \<open>i\<close> on.\<close>

function splitLoop ::
  "env \<Rightarrow> path \<Rightarrow> int \<Rightarrow> int \<Rightarrow> int \<Rightarrow> path list \<Rightarrow> world \<Rightarrow> (error + path list) \<times> world"
where
  "splitLoop env audioFile chunkDur numChunks i chunks w =
     (if i < numChunks then
        (let startTime = i * chunkDur in
         case os_CreateTemp env (''chunk-'' @ fmt_d i @ ''-*.mp3'') of
           Inl e \<Rightarrow>
             (Inl (Error (''failed to create temp chunk file: '' @ e)), removeChunks chunks w)
         | Inr chunkPath \<Rightarrow>
             (let w1 = w\<lparr>files := insert chunkPath (files w)\<rparr>;
                  w2 = w1\<lparr>extractions := extractions w1 @ [(startTime, chunkDur)]\<rparr>
              in case ffmpeg_extract env audioFile startTime chunkDur chunkPath of
                   Some (e, stderr) \<Rightarrow>
                     (Inl (Error (''ffmpeg chunk extraction failed: '' @ e @ [nl]
                                  @ ''Output: '' @ stderr)),
                      removeChunks chunks (os_Remove chunkPath w2))
                 | None \<Rightarrow>
                     splitLoop env audioFile chunkDur numChunks (i + 1) (chunks @ [chunkPath]) w2))
      else (Inr chunks, w))"
  by pat_completeness auto
termination
  by (relation "measure (\<lambda>(env, audioFile, chunkDur, numChunks, i, chunks, w). nat (numChunks - i))")
     auto

declare splitLoop.simps [simp del]

text \<open>
  \<open>splitAudioIntoChunks\<close> (lines 431 to 473). The integer division panics on a zero
  divisor.
\<close>

definition splitAudioIntoChunks ::
  "env \<Rightarrow> path \<Rightarrow> int \<Rightarrow> world \<Rightarrow> (error + path list) \<times> world"
where
  "splitAudioIntoChunks env audioFile chunkDur w =
     (case getAudioDuration env audioFile of
        Inl err \<Rightarrow> (Inl err, w)
      | Inr duration \<Rightarrow>
          if chunkDur = 0 then (Inl (Panic ''runtime error: integer divide by zero''), w)
          else (let numChunks = go_int duration sdiv chunkDur + 1
                in splitLoop env audioFile chunkDur numChunks 0 [] w))"

fun transcribe_step_message :: "transcribe_step \<Rightarrow> string" where
  "transcribe_step_message OpenAudioFile = ''failed to open audio file: ''"
| "transcribe_step_message CreateFormFile = ''failed to create form file: ''"
| "transcribe_step_message CopyFile = ''failed to copy file: ''"
| "transcribe_step_message WriteModelField = ''failed to write model field: ''"
| "transcribe_step_message WriteResponseFormatField = ''failed to write response_format field: ''"
| "transcribe_step_message WriteChunkingStrategyField =
     ''failed to write chunking_strategy field: ''"
| "transcribe_step_message CloseWriter = ''failed to close writer: ''"
| "transcribe_step_message CreateRequest = ''failed to create request: ''"
| "transcribe_step_message SendRequest = ''failed to send request: ''"
| "transcribe_step_message ReadResponse = ''failed to read response: ''"

text \<open>
  \<open>transcribeAudio\<close> of the synchronous client (lines 554 to 628; src/main.go, lines 111
  to 185, is the same but for the name of one form field). Each call is recorded.
\<close>

definition transcribeAudio ::
  "env \<Rightarrow> path \<Rightarrow> string \<Rightarrow> world \<Rightarrow> (error + TranscriptionResponse) \<times> world"
where
  "transcribeAudio env audioFile apiKey w =
     (let w1 = w\<lparr>calls := calls w @ [audioFile]\<rparr>
      in case openai_post env audioFile apiKey of
           Inl (step, e) \<Rightarrow> (Inl (Error (transcribe_step_message step @ e)), w1)
         | Inr (StatusCode, body) \<Rightarrow>
             if StatusCode \<noteq> 200
             then (Inl (Error (''API request failed with status '' @ fmt_d StatusCode @ '': ''
                               @ body)), w1)
             else (case json_Unmarshal env body of
                     Inl e \<Rightarrow> (Inl (Error (''failed to parse response: '' @ e)), w1)
                   | Inr transcription \<Rightarrow> (Inr transcription, w1)))"

text \<open>
  The loop over the segments of one chunk (lines 504 to 508). The loop variable
  \<open>segment\<close> is a copy of the element; the response \<open>transcription\<close> is carried along
  to show that nothing is written back to it.
\<close>

fun shiftLoop ::
  "real \<Rightarrow> DiarizedSegment list \<Rightarrow> TranscriptionResponse \<times> DiarizedSegment list
     \<Rightarrow> TranscriptionResponse \<times> DiarizedSegment list"
where
  "shiftLoop timeOffset [] (transcription, allSegments) = (transcription, allSegments)"
| "shiftLoop timeOffset (segment # rest) (transcription, allSegments) =
     (let segment1 = segment\<lparr>seg_Start := seg_Start segment + timeOffset\<rparr>;
          segment2 = segment1\<lparr>seg_End := seg_End segment1 + timeOffset\<rparr>
      in shiftLoop timeOffset rest (transcription, allSegments @ [segment2]))"

text \<open>
  The loop over the chunks (lines 495 to 516), from chunk \<open>i\<close> on, with the local
  variables \<open>allSegments\<close>, \<open>fullText\<close> and \<open>timeOffset\<close>.
\<close>

fun chunkLoop ::
  "env \<Rightarrow> string \<Rightarrow> path list \<Rightarrow> int \<Rightarrow> DiarizedSegment list \<times> string \<times> real \<Rightarrow> world
     \<Rightarrow> (error + DiarizedSegment list \<times> string \<times> real) \<times> world"
where
  "chunkLoop env apiKey [] i (allSegments, fullText, timeOffset) w =
     (Inr (allSegments, fullText, timeOffset), w)"
| "chunkLoop env apiKey (chunk # rest) i (allSegments, fullText, timeOffset) w =
     (case transcribeAudio env chunk apiKey w of
        (Inl err, w1) \<Rightarrow> (Inl (wrap (''failed to transcribe chunk '' @ fmt_d i @ '': '') err), w1)
      | (Inr transcription, w1) \<Rightarrow>
          (let allSegments1 =
                 snd (shiftLoop timeOffset (resp_Segments transcription)
                        (transcription, allSegments));
               fullText1 =
                 (if resp_Text transcription \<noteq> []
                  then fullText @ resp_Text transcription @ '' ''
                  else fullText);
               timeOffset1 = timeOffset + real_of_int chunkDuration
           in chunkLoop env apiKey rest (i + 1) (allSegments1, fullText1, timeOffset1) w1))"

text \<open>
  \<open>transcribeAudioInChunks\<close> (lines 476 to 522). The deferred removal of the chunk
  files runs on every return after the split has succeeded.
\<close>

definition transcribeAudioInChunks ::
  "env \<Rightarrow> path \<Rightarrow> string \<Rightarrow> real \<Rightarrow> world \<Rightarrow> (error + TranscriptionResponse) \<times> world"
where
  "transcribeAudioInChunks env audioFile apiKey duration w =
     (case splitAudioIntoChunks env audioFile chunkDuration w of
        (Inl err, w1) \<Rightarrow> (Inl err, w1)
      | (Inr chunks, w1) \<Rightarrow>
          (case chunkLoop env apiKey chunks 0 ([], [], 0) w1 of
             (Inl err, w2) \<Rightarrow> (Inl err, removeChunks chunks w2)
           | (Inr (allSegments, fullText, timeOffset), w2) \<Rightarrow>
               (Inr \<lparr>resp_Text = TrimSpace fullText, resp_Segments = allSegments\<rparr>,
                removeChunks chunks w2)))"

text \<open>\<open>convertToMP3\<close> (lines 525 to 551; the same in all three programs).\<close>

definition convertToMP3 :: "env \<Rightarrow> path \<Rightarrow> world \<Rightarrow> (error + path) \<times> world" where
  "convertToMP3 env videoFile w =
     (if os_Stat_IsNotExist env videoFile
      then (Inl (Error (''video file does not exist: '' @ videoFile)), w)
      else (case os_CreateTemp env ''transcribe-*.mp3'' of
              Inl e \<Rightarrow> (Inl (Error (''failed to create temp file: '' @ e)), w)
            | Inr mp3Path \<Rightarrow>
                (let w1 = w\<lparr>files := insert mp3Path (files w)\<rparr>
                 in case ffmpeg_convert env videoFile mp3Path of
                      Some (e, stderr) \<Rightarrow>
                        (Inl (Error (''ffmpeg failed: '' @ e @ [nl] @ ''Output: '' @ stderr)),
                         os_Remove mp3Path w1)
                    | None \<Rightarrow> (Inr mp3Path, w1))))"

text \<open>\<open>saveTranscription\<close> (lines 631 to 668): the rendered text goes to the file.\<close>

definition saveTranscription ::
  "env \<Rightarrow> path \<Rightarrow> TranscriptionResponse \<Rightarrow> world \<Rightarrow> error option \<times> world"
where
  "saveTranscription env filename transcription w =
     (let output = saveTranscription_output transcription
      in case os_WriteFile env filename output of
           Some e \<Rightarrow> (Some (Error e), w)
         | None \<Rightarrow> (None, w\<lparr>written := written w @ [(filename, output)]\<rparr>))"

text \<open>
  How \<open>main\<close> ends on a failure: it prints the diagnostic and calls \<open>os.Exit(1)\<close>, which
  runs no deferred call; a panic runs the deferred removal of the MP3 file, once it is
  registered, and ends the process with code 2. The result is the exit code and the last line printed.
\<close>

fun fail :: "string \<Rightarrow> error \<Rightarrow> path option \<Rightarrow> world \<Rightarrow> (int \<times> string) \<times> world" where
  "fail what (Error m) deferred w = ((1, what @ m @ [nl]), w)"
| "fail what (Panic m) deferred w =
     ((2, ''panic: '' @ m @ [nl]), (case deferred of None \<Rightarrow> w | Some name \<Rightarrow> os_Remove name w))"

text \<open>The choice between one call and the chunked path (lines 382 to 398 of \<open>main\<close>).\<close>

definition main_transcribe ::
  "env \<Rightarrow> path \<Rightarrow> string \<Rightarrow> real \<Rightarrow> world \<Rightarrow> (error + TranscriptionResponse) \<times> world"
where
  "main_transcribe env mp3File apiKey duration w =
     (if duration > real_of_int maxDuration
      then transcribeAudioInChunks env mp3File apiKey duration w
      else transcribeAudio env mp3File apiKey w)"

text \<open>
  \<open>main\<close> (lines 348 to 409), on the command line \<open>args\<close>. The progress messages it
  prints on the way are left out.
\<close>

definition main_chunked :: "env \<Rightarrow> string list \<Rightarrow> world \<Rightarrow> (int \<times> string) \<times> world" where
  "main_chunked env args w =
     (if length args < 2 then ((1, ''Usage: transcribe <video-file>'' @ [nl]), w)
      else
        (let videoFile = args ! 1 in
         case godotenv_Load env of
           Some e \<Rightarrow> ((1, ''Error loading .env file: '' @ e @ [nl]), w)
         | None \<Rightarrow>
             (case convertToMP3 env videoFile w of
                (Inl err, w1) \<Rightarrow> fail ''Error converting video: '' err None w1
              | (Inr mp3File, w1) \<Rightarrow>
                  (case getAudioDuration env mp3File of
                     Inl err \<Rightarrow> fail ''Error getting audio duration: '' err (Some mp3File) w1
                   | Inr duration \<Rightarrow>
                       (let apiKey = os_Getenv env ''OPENAI_API_KEY'' in
                        case main_transcribe env mp3File apiKey duration w1 of
                          (Inl err, w2) \<Rightarrow> fail ''Error transcribing audio: '' err (Some mp3File) w2
                        | (Inr transcription, w2) \<Rightarrow>
                            (let outputFile = TrimSuffix videoFile (Ext videoFile) @ ''.txt'' in
                             case saveTranscription env outputFile transcription w2 of
                               (Some err, w3) \<Rightarrow>
                                 fail ''Error saving transcription: '' err (Some mp3File) w3
                             | (None, w3) \<Rightarrow>
                                 ((0, ''Transcription saved to: '' @ outputFile @ [nl]),
                                  os_Remove mp3File w3)))))))"

section \<open>The asynchronous program\<close>

text \<open>The first program of src/unnamed/part\_000 (lines 1 to 308).\<close>

definition assemblyAIBaseURL :: string where
  "assemblyAIBaseURL = ''https://api.assemblyai.com/v2''"

fun upload_step_message :: "upload_step \<Rightarrow> string" where
  "upload_step_message UploadOpenAudioFile = ''failed to open audio file: ''"
| "upload_step_message UploadCreateRequest = ''failed to create request: ''"
| "upload_step_message UploadSendRequest = ''failed to send request: ''"
| "upload_step_message UploadReadResponse = ''failed to read response: ''"

text \<open>\<open>uploadAudio\<close> (lines 138 to 175).\<close>

definition uploadAudio :: "env \<Rightarrow> path \<Rightarrow> string \<Rightarrow> error + string" where
  "uploadAudio env audioFile apiKey =
     (case assembly_upload env audioFile apiKey of
        Inl (step, e) \<Rightarrow> Inl (Error (upload_step_message step @ e))
      | Inr (StatusCode, body) \<Rightarrow>
          if StatusCode \<noteq> 200
          then Inl (Error (''upload failed with status '' @ fmt_d StatusCode @ '': '' @ body))
          else (case json_Unmarshal_upload env body of
                  Inl e \<Rightarrow> Inl (Error (''failed to parse response: '' @ e))
                | Inr UploadURL \<Rightarrow> Inr UploadURL))"

fun submit_step_message :: "submit_step \<Rightarrow> string" where
  "submit_step_message SubmitMarshalRequest = ''failed to marshal request: ''"
| "submit_step_message SubmitCreateRequest = ''failed to create request: ''"
| "submit_step_message SubmitSendRequest = ''failed to send request: ''"
| "submit_step_message SubmitReadResponse = ''failed to read response: ''"

fun poll_step_message :: "poll_step \<Rightarrow> string" where
  "poll_step_message PollCreateRequest = ''failed to create polling request: ''"
| "poll_step_message PollSendRequest = ''failed to poll: ''"
| "poll_step_message PollReadResponse = ''failed to read polling response: ''"

text \<open>
  The poll loop of \<open>transcribeAudio\<close> (lines 224 to 258), before poll number \<open>n\<close>. The
  loop has no bound: a run that never leaves it has the value \<open>None\<close>.
\<close>

partial_function (option) pollLoop ::
  "env \<Rightarrow> string \<Rightarrow> string \<Rightarrow> nat \<Rightarrow> TranscriptionResponse_async \<Rightarrow> world
     \<Rightarrow> ((error + TranscriptionResponse_async) \<times> world) option"
where
  "pollLoop env pollingURL apiKey n transcription w =
     (case assembly_poll env pollingURL apiKey n of
        Inl (step, e) \<Rightarrow> Some (Inl (Error (poll_step_message step @ e)), w)
      | Inr (StatusCode, body) \<Rightarrow>
          (case json_Unmarshal_job env body transcription of
             Inl e \<Rightarrow> Some (Inl (Error (''failed to parse polling response: '' @ e)), w)
           | Inr transcription1 \<Rightarrow>
               if job_Status transcription1 = ''completed''
               then Some (Inr transcription1, w)
               else if job_Status transcription1 = ''error''
               then Some (Inl (Error (''transcription failed: '' @ job_Error transcription1)), w)
               else if job_Status transcription1 = ''queued''
                       \<or> job_Status transcription1 = ''processing''
               then pollLoop env pollingURL apiKey (n + 1) transcription1
                      (w\<lparr>sleeps := sleeps w @ [3 * Second]\<rparr>)
               else Some (Inl (Error (''unexpected status: '' @ job_Status transcription1)), w)))"

declare pollLoop.simps [code]

text \<open>\<open>transcribeAudio\<close> of the asynchronous client (lines 178 to 259).\<close>

definition transcribeAudio_async ::
  "env \<Rightarrow> string \<Rightarrow> string \<Rightarrow> world \<Rightarrow> ((error + TranscriptionResponse_async) \<times> world) option"
where
  "transcribeAudio_async env audioURL apiKey w =
     (case assembly_submit env audioURL apiKey of
        Inl (step, e) \<Rightarrow> Some (Inl (Error (submit_step_message step @ e)), w)
      | Inr (StatusCode, body) \<Rightarrow>
          if StatusCode \<noteq> 200
          then Some (Inl (Error (''transcription request failed with status ''
                                 @ fmt_d StatusCode @ '': '' @ body)), w)
          else (case json_Unmarshal_job env body
                       \<lparr>job_ID = [], job_Status = [], job_Text = [], job_Utterances = [],
                        job_Error = []\<rparr> of
                  Inl e \<Rightarrow> Some (Inl (Error (''failed to parse response: '' @ e)), w)
                | Inr transcription \<Rightarrow>
                    (let transcriptID = job_ID transcription;
                         pollingURL = assemblyAIBaseURL @ ''/transcript/'' @ transcriptID
                     in pollLoop env pollingURL apiKey 0 transcription w)))"

text \<open>\<open>saveTranscription\<close> of the asynchronous program (lines 262 to 299).\<close>

definition saveTranscription_async ::
  "env \<Rightarrow> path \<Rightarrow> TranscriptionResponse_async \<Rightarrow> world \<Rightarrow> error option \<times> world"
where
  "saveTranscription_async env filename transcription w =
     (let output = saveTranscription_output_async transcription
      in case os_WriteFile env filename output of
           Some e \<Rightarrow> (Some (Error e), w)
         | None \<Rightarrow> (None, w\<lparr>written := written w @ [(filename, output)]\<rparr>))"

text \<open>
  \<open>main\<close> (lines 51 to 106), without its progress messages; \<open>None\<close> when the poll loop
  never returns.
\<close>

definition main_async :: "env \<Rightarrow> string list \<Rightarrow> world \<Rightarrow> ((int \<times> string) \<times> world) option" where
  "main_async env args w =
     (if length args < 2 then Some ((1, ''Usage: transcribe <video-file>'' @ [nl]), w)
      else
        (let videoFile = args ! 1 in
         case godotenv_Load env of
           Some e \<Rightarrow> Some ((1, ''Error loading .env file: '' @ e @ [nl]), w)
         | None \<Rightarrow>
             (let apiKey = os_Getenv env ''ASSEMBLYAI_API_KEY'' in
              if apiKey = [] then Some ((1, ''Error: ASSEMBLYAI_API_KEY not found in .env'' @ [nl]), w)
              else
                (case convertToMP3 env videoFile w of
                   (Inl err, w1) \<Rightarrow> Some (fail ''Error converting video: '' err None w1)
                 | (Inr mp3File, w1) \<Rightarrow>
                     (case uploadAudio env mp3File apiKey of
                        Inl err \<Rightarrow> Some (fail ''Error uploading audio: '' err (Some mp3File) w1)
                      | Inr uploadURL \<Rightarrow>
                          (case transcribeAudio_async env uploadURL apiKey w1 of
                             None \<Rightarrow> None
                           | Some (Inl err, w2) \<Rightarrow>
                               Some (fail ''Error transcribing audio: '' err (Some mp3File) w2)
                           | Some (Inr transcription, w2) \<Rightarrow>
                               (let outputFile = TrimSuffix videoFile (Ext videoFile) @ ''.txt'' in
                                case saveTranscription_async env outputFile transcription w2 of
                                  (Some err, w3) \<Rightarrow>
                                    Some (fail ''Error saving transcription: '' err
                                            (Some mp3File) w3)
                                | (None, w3) \<Rightarrow>
                                    Some ((0, ''Transcription saved to: '' @ outputFile @ [nl]),
                                          os_Remove mp3File w3))))))))"

section \<open>Vocabulary of the claims\<close>

text \<open>
  The words in which the properties below are stated. For a fragment: the speaker label
  the renderer shows (\<open>Unknown\<close> for an empty speaker), the bracketed time range that
  starts a line, the header line that opens a speaker block, and the line of the trimmed
  text. \<open>rendered text segments\<close> is the text written for a response with that plain
  text and those fragments.
\<close>

definition speakerLabel :: "DiarizedSegment \<Rightarrow> string" where
  "speakerLabel segment = (if seg_Speaker segment = [] then ''Unknown'' else seg_Speaker segment)"

definition stamp :: "DiarizedSegment \<Rightarrow> string" where
  "stamp segment =
     ''['' @ formatTimestamp (seg_Start segment) @ '' - '' @ formatTimestamp (seg_End segment)
     @ ''] ''"

definition headerLine :: "DiarizedSegment \<Rightarrow> string" where
  "headerLine segment = stamp segment @ speakerLabel segment @ '':'' @ [nl]"

definition textLine :: "DiarizedSegment \<Rightarrow> string" where
  "textLine segment = TrimSpace (seg_Text segment) @ [nl]"

definition rendered :: "string \<Rightarrow> DiarizedSegment list \<Rightarrow> string" where
  "rendered text segments =
     saveTranscription_output \<lparr>resp_Text = text, resp_Segments = segments\<rparr>"

text \<open>
  A string ends with exactly one newline; the last fragment of a sequence opens a
  speaker block (it is the first one, or its label differs from the one before).
\<close>

definition endsWithOneNewline :: "string \<Rightarrow> bool" where
  "endsWithOneNewline s =
     (case rev s of
        [] \<Rightarrow> False
      | c # r \<Rightarrow> c = nl \<and> (case r of [] \<Rightarrow> True | d # _ \<Rightarrow> d \<noteq> nl))"

definition opensBlock :: "DiarizedSegment list \<Rightarrow> bool" where
  "opensBlock segments =
     (case rev segments of
        [] \<Rightarrow> False
      | [g] \<Rightarrow> True
      | g # f # _ \<Rightarrow> speakerLabel g \<noteq> speakerLabel f)"

text \<open>A copy of a fragment with both timestamps moved by an offset.\<close>

definition shifted :: "real \<Rightarrow> DiarizedSegment \<Rightarrow> DiarizedSegment" where
  "shifted offset segment =
     segment\<lparr>seg_Start := seg_Start segment + offset, seg_End := seg_End segment + offset\<rparr>"

text \<open>Strings joined by single spaces, as \<open>strings.Join(ts, " ")\<close>.\<close>

fun joinSpace :: "string list \<Rightarrow> string" where
  "joinSpace [] = []"
| "joinSpace [t] = t"
| "joinSpace (t # u # ts) = t @ '' '' @ joinSpace (u # ts)"

text \<open>
  The plan of \<open>n\<close> chunks of a given length: start offset and requested length of each.
  The extraction of a chunk reads the source from the start offset for the requested
  length and stops at the end of the audio; \<open>chunkExtent D\<close> is the range of the source
  a planned chunk covers when the audio is \<open>D\<close> seconds long.
\<close>

definition chunkPlan :: "int \<Rightarrow> nat \<Rightarrow> (int \<times> int) list" where
  "chunkPlan chunkLength n = map (\<lambda>i. (int i * chunkLength, chunkLength)) [0..<n]"

definition chunkExtent :: "real \<Rightarrow> int \<times> int \<Rightarrow> real \<times> real" where
  "chunkExtent D chunk =
     (real_of_int (fst chunk), min (real_of_int (fst chunk + snd chunk)) D)"

text \<open>
  \<open>pendingFor env pollingURL apiKey n transcription k\<close>: the polls \<open>n\<close>, ..., \<open>n + k - 1\<close>
  are all answered, decoded and pending (\<open>queued\<close> or \<open>processing\<close>); the value is the
  struct after the last of them.
\<close>

fun pendingFor ::
  "env \<Rightarrow> string \<Rightarrow> string \<Rightarrow> nat \<Rightarrow> TranscriptionResponse_async \<Rightarrow> nat
     \<Rightarrow> TranscriptionResponse_async option"
where
  "pendingFor env pollingURL apiKey n transcription 0 = Some transcription"
| "pendingFor env pollingURL apiKey n transcription (Suc k) =
     (case assembly_poll env pollingURL apiKey n of
        Inl failure \<Rightarrow> None
      | Inr (StatusCode, body) \<Rightarrow>
          (case json_Unmarshal_job env body transcription of
             Inl e \<Rightarrow> None
           | Inr transcription1 \<Rightarrow>
               if job_Status transcription1 = ''queued''
                  \<or> job_Status transcription1 = ''processing''
               then pendingFor env pollingURL apiKey (n + 1) transcription1 k
               else None))"

text \<open>The same words for the utterances of the asynchronous program.\<close>

definition speakerLabel_async :: "Utterance \<Rightarrow> string" where
  "speakerLabel_async utterance =
     (if utt_Speaker utterance = [] then ''Unknown'' else utt_Speaker utterance)"

definition stamp_async :: "Utterance \<Rightarrow> string" where
  "stamp_async utterance =
     ''['' @ formatTimestamp (real_of_int (utt_Start utterance) / 1000) @ '' - ''
     @ formatTimestamp (real_of_int (utt_End utterance) / 1000) @ ''] ''"

definition headerLine_async :: "Utterance \<Rightarrow> string" where
  "headerLine_async utterance =
     stamp_async utterance @ ''Speaker '' @ speakerLabel_async utterance @ '':'' @ [nl]"

definition textLine_async :: "Utterance \<Rightarrow> string" where
  "textLine_async utterance = TrimSpace (utt_Text utterance) @ [nl]"

definition rendered_async :: "TranscriptionResponse_async \<Rightarrow> Utterance list \<Rightarrow> string" where
  "rendered_async transcription utterances =
     saveTranscription_output_async (transcription\<lparr>job_Utterances := utterances\<rparr>)"

section \<open>Sample environments\<close>

text \<open>
  Concrete runs on which the theorems are exercised. In \<open>demo_env\<close> every tool
  succeeds, a temporary file is named after its pattern, the audio is 2500 seconds
  long, the transcription service echoes the name of the file it was sent, decoded by
  \<open>demo_decode\<close> (the middle chunk is silent: no text, no fragment), and the job of the
  asynchronous service is \<open>processing\<close> for two polls and then \<open>completed\<close>.
\<close>

definition demo_decode :: "string \<Rightarrow> string + TranscriptionResponse" where
  "demo_decode body =
     Inr (if body = ''/tmp/chunk-0-*.mp3''
          then \<lparr>resp_Text = ''a'',
                resp_Segments =
                  [\<lparr>seg_Speaker = ''A'', seg_Start = 0, seg_End = 1.5, seg_Text = '' hello ''\<rparr>]\<rparr>
          else if body = ''/tmp/chunk-1-*.mp3''
          then \<lparr>resp_Text = [], resp_Segments = []\<rparr>
          else \<lparr>resp_Text = ''b'',
                resp_Segments =
                  [\<lparr>seg_Speaker = ''B'', seg_Start = 2, seg_End = 3, seg_Text = ''bye''\<rparr>]\<rparr>)"

definition demo_env :: env where
  "demo_env =
     \<lparr>godotenv_Load = None,
      os_Getenv = (\<lambda>name. ''key''),
      os_Stat_IsNotExist = (\<lambda>name. False),
      os_CreateTemp = (\<lambda>pattern. Inr (''/tmp/'' @ pattern)),
      os_WriteFile = (\<lambda>name contents. None),
      ffmpeg_convert = (\<lambda>videoFile mp3Path. None),
      ffprobe = (\<lambda>audioFile. ProbeDuration 2500),
      ffmpeg_extract = (\<lambda>audioFile startTime chunkDur chunkPath. None),
      openai_post = (\<lambda>audioFile apiKey. Inr (200, audioFile)),
      json_Unmarshal = demo_decode,
      assembly_upload = (\<lambda>audioFile apiKey. Inr (200, audioFile)),
      json_Unmarshal_upload = (\<lambda>body. Inr body),
      assembly_submit = (\<lambda>audioURL apiKey. Inr (200, ''queued'')),
      assembly_poll = (\<lambda>pollingURL apiKey n. Inr (200, if n < 2 then ''processing'' else ''completed'')),
      json_Unmarshal_job = (\<lambda>body transcription. Inr (transcription\<lparr>job_Status := body\<rparr>))\<rparr>"

definition demo_world :: world where
  "demo_world = \<lparr>files = {}, calls = [], extractions = [], sleeps = [], written = []\<rparr>"

text \<open>The service refuses the second chunk with status 503.\<close>

definition flaky_env :: env where
  "flaky_env =
     demo_env
       \<lparr>openai_post :=
          (\<lambda>audioFile apiKey.
             if audioFile = ''/tmp/chunk-1-*.mp3'' then Inr (503, ''busy'')
             else Inr (200, audioFile))\<rparr>"
text \<open>
  The job-status endpoint answers every poll with status 500 and a body that is not
  JSON, which the decoder rejects.
\<close>

definition failing_env :: env where
  "failing_env =
     demo_env
       \<lparr>assembly_poll := (\<lambda>pollingURL apiKey n. Inr (500, ''Internal Server Error'')),
        json_Unmarshal_job :=
          (\<lambda>body transcription.
             if body = ''Internal Server Error''
             then Inl ''invalid character I looking for beginning of value''
             else Inr (transcription\<lparr>job_Status := body\<rparr>))\<rparr>"

text \<open>Sample fragments, utterances and a sample job.\<close>

definition seg_a1 :: DiarizedSegment where
  "seg_a1 = \<lparr>seg_Speaker = ''A'', seg_Start = 0, seg_End = 1.5, seg_Text = '' hello ''\<rparr>"

definition seg_a2 :: DiarizedSegment where
  "seg_a2 = \<lparr>seg_Speaker = ''A'', seg_Start = 1.5, seg_End = 3, seg_Text = ''again''\<rparr>"

definition seg_u :: DiarizedSegment where
  "seg_u = \<lparr>seg_Speaker = [], seg_Start = 3, seg_End = 3661.9, seg_Text = ''who''\<rparr>"

definition seg_b :: DiarizedSegment where
  "seg_b = \<lparr>seg_Speaker = ''B'', seg_Start = 2, seg_End = 3, seg_Text = ''bye''\<rparr>"

definition seg_blank :: DiarizedSegment where
  "seg_blank = \<lparr>seg_Speaker = ''A'', seg_Start = 0, seg_End = 1, seg_Text = '' ''\<rparr>"

definition utt_a :: Utterance where
  "utt_a = \<lparr>utt_Speaker = ''A'', utt_Start = 0, utt_End = 1500, utt_Text = ''hello'',
            utt_Confidence = 1\<rparr>"

definition utt_b :: Utterance where
  "utt_b = \<lparr>utt_Speaker = ''B'', utt_Start = 1500, utt_End = 61000, utt_Text = ''hi'',
            utt_Confidence = 1\<rparr>"

definition job_sample :: TranscriptionResponse_async where
  "job_sample =
     \<lparr>job_ID = ''j1'', job_Status = ''completed'', job_Text = ''hello hi'', job_Utterances = [],
      job_Error = []\<rparr>"

section \<open>Numbers and timestamps\<close>

text \<open>
  On non-negative values the truncating operations of Go are floor, \<open>div\<close> and \<open>mod\<close>,
  and the hours, minutes and seconds of a duration are its nanoseconds divided by the
  unit.
\<close>

lemma showNat_small: "n < 10 \<Longrightarrow> showNat n = [digit n]"
  by (simp add: showNat.simps)

lemma showNat_big: "10 \<le> n \<Longrightarrow> showNat n = showNat (n div 10) @ [digit (n mod 10)]"
  by (subst showNat.simps) simp

lemma length_showNat_two: "10 \<le> n \<Longrightarrow> n < 100 \<Longrightarrow> length (showNat n) = 2"
  by (simp add: showNat_big showNat_small)

lemma length_showNat_pos: "0 < length (showNat n)"
  by (subst showNat.simps) simp

lemma length_showNat_ge2: "10 \<le> n \<Longrightarrow> 2 \<le> length (showNat n)"
  using length_showNat_pos [of "n div 10"] by (simp add: showNat_big Suc_le_eq)

lemma length_fmt_02d_field: "0 \<le> k \<Longrightarrow> k < 60 \<Longrightarrow> length (fmt_02d k) = 2"
  by (simp add: fmt_02d_def showNat_small length_showNat_two)

lemma length_fmt_02d_ge: "0 \<le> k \<Longrightarrow> 2 \<le> length (fmt_02d k)"
  by (simp add: fmt_02d_def showNat_small length_showNat_ge2)

lemma go_int_nonneg: "0 \<le> x \<Longrightarrow> go_int x = \<lfloor>x\<rfloor>"
  by (simp add: go_int_def)

lemma sdiv_nonneg: "0 \<le> (a::int) \<Longrightarrow> 0 < b \<Longrightarrow> a sdiv b = a div b"
  by (simp add: signed_divide_int_def sgn_if)

lemma smod_nonneg: "0 \<le> (a::int) \<Longrightarrow> 0 < b \<Longrightarrow> a smod b = a mod b"
  by (simp add: signed_modulo_int_def sgn_if)

lemma quot_frac: "real_of_int (d div m) + real_of_int (d mod m) / real_of_int m = real_of_int d / real_of_int m"
  by (metis of_int_div_aux)

lemma floor_floor_div: "0 < (m::int) \<Longrightarrow> \<lfloor>real_of_int \<lfloor>x\<rfloor> / real_of_int m\<rfloor> = \<lfloor>x / real_of_int m\<rfloor>"
  by (simp add: floor_divide_real_eq_div)

lemma floor_unit: "0 \<le> seconds \<Longrightarrow> 0 < (m::int) \<Longrightarrow>
   \<lfloor>real_of_int \<lfloor>seconds * 1000000000\<rfloor> / (real_of_int m * 1000000000)\<rfloor> = \<lfloor>seconds / real_of_int m\<rfloor>"
proof -
  assume m: "0 < m"
  have "\<lfloor>real_of_int \<lfloor>seconds * 1000000000\<rfloor> / real_of_int (m * 1000000000)\<rfloor>
        = \<lfloor>seconds * 1000000000 / real_of_int (m * 1000000000)\<rfloor>"
    using m by (intro floor_floor_div) simp
  then show ?thesis by simp
qed

lemma Hours_nonneg: "0 \<le> d \<Longrightarrow> Hours d = real_of_int d / (3600 * 1000000000)"
  using quot_frac [of d Hour]
  by (simp add: Hours_def Let_def sdiv_nonneg smod_nonneg Hour_def Minute_def Second_def Nanosecond_def)

lemma Minutes_nonneg: "0 \<le> d \<Longrightarrow> Minutes d = real_of_int d / (60 * 1000000000)"
  using quot_frac [of d Minute]
  by (simp add: Minutes_def Let_def sdiv_nonneg smod_nonneg Minute_def Second_def Nanosecond_def)

lemma Seconds_nonneg: "0 \<le> d \<Longrightarrow> Seconds d = real_of_int d / 1000000000"
  using quot_frac [of d Second]
  by (simp add: Seconds_def Let_def sdiv_nonneg smod_nonneg Second_def Nanosecond_def)

lemma formatTimestamp_fields:
  assumes "0 \<le> seconds"
  shows "formatTimestamp seconds =
        fmt_02d \<lfloor>seconds / 3600\<rfloor> @ '':'' @ fmt_02d (\<lfloor>seconds / 60\<rfloor> mod 60) @ '':'' @
        fmt_02d (\<lfloor>seconds\<rfloor> mod 60)"
proof -
  let ?d = "\<lfloor>seconds * 1000000000\<rfloor>"
  have d0: "0 \<le> ?d" using assms by simp
  have dur: "go_int (seconds * real_of_int Second) = ?d"
    using assms by (simp add: go_int_nonneg Second_def Nanosecond_def)
  have h: "go_int (Hours ?d) = \<lfloor>seconds / 3600\<rfloor>"
    using floor_unit [OF assms, of 3600] d0 by (simp add: Hours_nonneg go_int_nonneg)
  have m: "go_int (Minutes ?d) = \<lfloor>seconds / 60\<rfloor>"
    using floor_unit [OF assms, of 60] d0 by (simp add: Minutes_nonneg go_int_nonneg)
  have s: "go_int (Seconds ?d) = \<lfloor>seconds\<rfloor>"
    using floor_unit [OF assms, of 1] d0 by (simp add: Seconds_nonneg go_int_nonneg)
  have m0: "0 \<le> \<lfloor>seconds / 60\<rfloor>" and s0: "0 \<le> \<lfloor>seconds\<rfloor>"
    using assms by simp_all
  show ?thesis
    unfolding formatTimestamp_def Let_def dur h m s
    using m0 s0 by (simp add: smod_nonneg)
qed

lemma formatTimestamp_zero: "formatTimestamp 0 = ''00:00:00''"
  by (simp add: formatTimestamp_fields fmt_02d_def showNat_small digit_def)

lemma formatTimestamp_3661_9: "formatTimestamp 3661.9 = ''01:01:01''"
  by (simp add: formatTimestamp_fields fmt_02d_def showNat_small digit_def)

lemma formatTimestamp_59_999: "formatTimestamp 59.999 = ''00:00:59''"
  by (simp add: formatTimestamp_fields fmt_02d_def showNat_small showNat_big digit_def)

section \<open>Trimming\<close>

text \<open>
  A trimmed string does not end with a newline, and a space appended to a string is
  trimmed away again.
\<close>

lemma nl_in_spaceRunes: "[nl] \<in> set spaceRunes"
  by (simp add: spaceRunes_def nl_def)

lemma trimRight_last: "trimRight s \<noteq> [] \<Longrightarrow> last (trimRight s) \<noteq> nl"
proof (induction s rule: trimRight.induct)
  case (1 s)
  show ?case
  proof (cases "find (\<lambda>p. suffix p s) spaceRunes")
    case None
    then have "\<not> suffix [nl] s"
      using nl_in_spaceRunes by (auto simp: find_None_iff)
    moreover have "trimRight s = s"
      using None by (subst trimRight.simps) simp
    ultimately show ?thesis
      using "1.prems" by (cases s rule: rev_cases) (auto simp: suffix_def)
  next
    case (Some p)
    then have eq: "trimRight s = trimRight (take (length s - length p) s)"
      by (subst trimRight.simps) simp
    show ?thesis
      using "1.IH" [OF Some] "1.prems" unfolding eq by simp
  qed
qed

lemma TrimSpace_last: "TrimSpace s \<noteq> [] \<Longrightarrow> last (TrimSpace s) \<noteq> nl"
  unfolding TrimSpace_def by (rule trimRight_last)

lemma spaceRunes_nonempty: "p \<in> set spaceRunes \<Longrightarrow> p \<noteq> []"
  by (auto simp: spaceRunes_def)

lemma find_spaceRunes_Nil: "find (\<lambda>p. p = []) spaceRunes = None"
  by (simp add: spaceRunes_def)

lemma trimLeft_Nil: "trimLeft [] = []"
  by (subst trimLeft.simps) (simp add: find_spaceRunes_Nil)

lemma trimRight_Nil: "trimRight [] = []"
  by (subst trimRight.simps) (simp add: find_spaceRunes_Nil)

lemma spaceRunes_snoc_space:
  "p \<in> set spaceRunes \<Longrightarrow> s \<noteq> [] \<Longrightarrow> p \<noteq> s @ '' ''"
  by (cases s rule: rev_cases) (auto simp: spaceRunes_def)

lemma find_prefix_snoc_space:
  assumes "s \<noteq> []"
  shows "find (\<lambda>p. prefix p (s @ '' '')) spaceRunes = find (\<lambda>p. prefix p s) spaceRunes"
proof (rule find_cong [OF refl])
  fix p assume "p \<in> set spaceRunes"
  then show "prefix p (s @ '' '') = prefix p s"
    using spaceRunes_snoc_space [OF _ assms, of p] by (auto simp: prefix_snoc)
qed

lemma trimLeft_snoc_space:
  "trimLeft (s @ '' '') = (if trimLeft s = [] then [] else trimLeft s @ '' '')"
proof (induction s rule: trimLeft.induct)
  case (1 s)
  show ?case
  proof (cases "s = []")
    case True
    have "find (\<lambda>p. prefix p '' '') spaceRunes = Some '' ''"
      by (simp add: spaceRunes_def)
    then have "trimLeft '' '' = []"
      by (subst trimLeft.simps) (simp add: trimLeft_Nil)
    then show ?thesis by (simp add: True trimLeft_Nil)
  next
    case False
    note same = find_prefix_snoc_space [OF False]
    show ?thesis
    proof (cases "find (\<lambda>p. prefix p s) spaceRunes")
      case None
      then have "trimLeft s = s" "trimLeft (s @ '' '') = s @ '' ''"
        using same by (subst trimLeft.simps, simp)+
      then show ?thesis using False by simp
    next
      case (Some p)
      then have "prefix p s" by (auto simp: find_Some_iff)
      then have le: "length p \<le> length s" by (rule prefix_length_le)
      have a: "trimLeft s = trimLeft (drop (length p) s)"
        using Some by (subst trimLeft.simps) simp
      have b: "trimLeft (s @ '' '') = trimLeft (drop (length p) s @ '' '')"
        using Some same le by (subst trimLeft.simps) simp
      show ?thesis
        unfolding a b by (rule "1.IH" [OF Some])
    qed
  qed
qed

lemma trimRight_snoc_space: "trimRight (t @ '' '') = trimRight t"
proof -
  have "find (\<lambda>p. suffix p (t @ '' '')) spaceRunes = Some '' ''"
    by (simp add: spaceRunes_def suffix_to_prefix)
  then show ?thesis
    by (subst trimRight.simps) simp
qed

lemma TrimSpace_snoc_space: "TrimSpace (s @ '' '') = TrimSpace s"
  by (simp add: TrimSpace_def trimLeft_snoc_space trimRight_snoc_space trimRight_Nil)

section \<open>The renderer, fragment by fragment\<close>

text \<open>
  The loop of the renderer only appends to its output, and after a non-empty sequence
  its current speaker is the label of the last fragment. So the output for a sequence
  extended by one fragment is the output for the sequence followed by what that
  fragment adds.
\<close>

lemma speakerLabel_nonempty: "speakerLabel segment \<noteq> []"
  by (simp add: speakerLabel_def)

lemma saveLoop_step:
  "saveLoop (segment # rest) (output, currentSpeaker) =
     saveLoop rest
       (if speakerLabel segment \<noteq> currentSpeaker
        then ((if currentSpeaker \<noteq> [] then output @ [nl] else output)
                @ headerLine segment @ textLine segment, speakerLabel segment)
        else (output @ stamp segment @ textLine segment, currentSpeaker))"
  by (simp add: Let_def speakerLabel_def headerLine_def stamp_def textLine_def)

lemma saveLoop_snoc:
  "saveLoop (segments @ [g]) st = saveLoop [g] (saveLoop segments st)"
proof (induction segments arbitrary: st)
  case Nil
  show ?case by (cases st) simp
next
  case (Cons a segments)
  obtain out cur where st: "st = (out, cur)" by (cases st)
  show ?case
    unfolding st append_Cons saveLoop_step by (rule Cons.IH)
qed

lemma saveLoop_speaker:
  "snd (saveLoop segments (out, cur)) = (if segments = [] then cur else speakerLabel (last segments))"
proof (induction segments arbitrary: out cur)
  case Nil
  show ?case by simp
next
  case (Cons a segments)
  show ?case
    unfolding saveLoop_step by (simp add: Cons.IH)
qed

lemma saveLoop_last:
  assumes "segments \<noteq> []"
  shows "saveLoop segments st = (fst (saveLoop segments st), speakerLabel (last segments))"
proof -
  obtain out cur where st: "st = (out, cur)" by (cases st)
  show ?thesis
    using saveLoop_speaker [of segments out cur] assms unfolding st
    by (metis prod.collapse)
qed

lemma rendered_nonempty: "segments \<noteq> [] \<Longrightarrow> rendered text segments = fst (saveLoop segments ([], []))"
  by (simp add: rendered_def saveTranscription_output_def)

lemma rendered_single: "rendered text [f] = headerLine f @ textLine f"
  by (simp add: rendered_nonempty saveLoop_step speakerLabel_nonempty del: saveLoop.simps(2))

lemma rendered_change:
  assumes "segments \<noteq> []" "speakerLabel g \<noteq> speakerLabel (last segments)"
  shows "rendered text (segments @ [g]) = rendered text segments @ [nl] @ headerLine g @ textLine g"
proof -
  have "saveLoop (segments @ [g]) ([], []) =
        saveLoop [g] (rendered text segments, speakerLabel (last segments))"
    using saveLoop_last [OF assms(1), of "([], [])"] assms(1)
    by (simp add: saveLoop_snoc rendered_nonempty del: saveLoop.simps(2))
  then show ?thesis
    using assms(2) by (simp add: rendered_nonempty saveLoop_step speakerLabel_nonempty del: saveLoop.simps(2))
qed

lemma rendered_same:
  assumes "segments \<noteq> []" "speakerLabel g = speakerLabel (last segments)"
  shows "rendered text (segments @ [g]) = rendered text segments @ stamp g @ textLine g"
proof -
  have "saveLoop (segments @ [g]) ([], []) =
        saveLoop [g] (rendered text segments, speakerLabel (last segments))"
    using saveLoop_last [OF assms(1), of "([], [])"] assms(1)
    by (simp add: saveLoop_snoc rendered_nonempty del: saveLoop.simps(2))
  then show ?thesis
    using assms(2) by (simp add: rendered_nonempty saveLoop_step del: saveLoop.simps(2))
qed

lemma saveLoop_run:
  "\<forall>g \<in> set gs. speakerLabel g = cur \<Longrightarrow>
   saveLoop gs (out, cur) = (out @ concat (map (\<lambda>g. stamp g @ textLine g) gs), cur)"
proof (induction gs arbitrary: out)
  case Nil
  show ?case by simp
next
  case (Cons a gs)
  then show ?case
    unfolding saveLoop_step by simp
qed

lemma rendered_run:
  assumes "\<forall>g \<in> set gs. speakerLabel g = speakerLabel f"
  shows "rendered text (f # gs) = headerLine f @ textLine f @ concat (map (\<lambda>g. stamp g @ textLine g) gs)"
  using saveLoop_run [OF assms]
  by (simp add: rendered_nonempty saveLoop_step speakerLabel_nonempty del: saveLoop.simps(2))

lemma saveLoop_output:
  "fst (saveLoop segments (out, cur)) = out @ fst (saveLoop segments ([], cur))"
proof (induction segments arbitrary: out cur)
  case Nil
  show ?case by simp
next
  case (Cons a segments)
  show ?case
    unfolding saveLoop_step
    by (subst (1 2) if_distrib [of "\<lambda>st. fst (saveLoop segments st)"])
       (simp add: Cons.IH [of "_ @ _"] Cons.IH [of "headerLine a @ textLine a"] Cons.IH [of "stamp a @ textLine a"])
qed

lemma rendered_begins:
  "prefix (headerLine f) (rendered text (f # rest))"
  by (simp add: rendered_nonempty saveLoop_step speakerLabel_nonempty
      saveLoop_output [of rest "headerLine f @ textLine f"] del: saveLoop.simps(2))

lemma endsWithOneNewline_snoc: "endsWithOneNewline (x @ [nl]) \<longleftrightarrow> x = [] \<or> last x \<noteq> nl"
  by (cases x rule: rev_cases) (simp_all add: endsWithOneNewline_def)

lemma endsWithOneNewline_append: "endsWithOneNewline (x @ y @ [nl]) \<longleftrightarrow> (if y = [] then endsWithOneNewline (x @ [nl]) else endsWithOneNewline (y @ [nl]))"
  by (cases y rule: rev_cases) (simp_all add: endsWithOneNewline_def)

lemma textLine_after_stamp:
  "endsWithOneNewline (x @ stamp g @ textLine g)"
proof -
  have "stamp g = (''['' @ formatTimestamp (seg_Start g) @ '' - '' @ formatTimestamp (seg_End g) @ '']'') @ '' ''"
    by (simp add: stamp_def)
  then obtain y where y: "stamp g = y @ '' ''" by blast
  show ?thesis
  proof (cases "TrimSpace (seg_Text g) = []")
    case True
    then show ?thesis
      by (simp add: textLine_def y endsWithOneNewline_def nl_def)
  next
    case False
    then show ?thesis
      using TrimSpace_last [OF False] endsWithOneNewline_append [of "x @ stamp g" "TrimSpace (seg_Text g)"]
      by (simp add: textLine_def endsWithOneNewline_snoc)
  qed
qed

lemma textLine_after_header:
  "endsWithOneNewline (x @ headerLine g @ textLine g) \<longleftrightarrow> TrimSpace (seg_Text g) \<noteq> []"
proof (cases "TrimSpace (seg_Text g) = []")
  case True
  then show ?thesis
    by (simp add: textLine_def headerLine_def endsWithOneNewline_def)
next
  case False
  then show ?thesis
    using TrimSpace_last [OF False] endsWithOneNewline_append [of "x @ headerLine g" "TrimSpace (seg_Text g)"]
    by (simp add: textLine_def endsWithOneNewline_snoc)
qed

lemma rendered_one_newline:
  assumes "segments \<noteq> []"
  shows "endsWithOneNewline (rendered text segments) \<longleftrightarrow>
         \<not> (opensBlock segments \<and> TrimSpace (seg_Text (last segments)) = [])"
proof -
  obtain front g where sg: "segments = front @ [g]"
    using assms by (cases segments rule: rev_cases) auto
  show ?thesis
  proof (cases front rule: rev_cases)
    case Nil
    then show ?thesis
      using textLine_after_header [of "[]" g] by (simp add: sg rendered_single opensBlock_def)
  next
    case (snoc front' f)
    then have front: "front \<noteq> []" "last front = f" by simp_all
    have opens: "opensBlock segments \<longleftrightarrow> speakerLabel g \<noteq> speakerLabel f"
      by (simp add: sg snoc opensBlock_def)
    show ?thesis
    proof (cases "speakerLabel g = speakerLabel f")
      case True
      then have "rendered text segments = rendered text front @ stamp g @ textLine g"
        unfolding sg using front by (intro rendered_same) simp_all
      then show ?thesis
        using textLine_after_stamp [of "rendered text front" g] True opens by simp
    next
      case False
      then have "rendered text segments = rendered text front @ [nl] @ headerLine g @ textLine g"
        unfolding sg using front by (intro rendered_change) simp_all
      then show ?thesis
        using textLine_after_header [of "rendered text front @ [nl]" g] False opens
        by (simp add: sg)
    qed
  qed
qed

lemma rendered_ends_nl:
  assumes "segments \<noteq> []"
  shows "\<exists>body. rendered text segments = body @ [nl]"
proof -
  obtain front g where sg: "segments = front @ [g]"
    using assms by (cases segments rule: rev_cases) auto
  obtain out cur where st: "saveLoop front ([], []) = (out, cur)"
    by (cases "saveLoop front ([], [])")
  have "rendered text segments = fst (saveLoop [g] (out, cur))"
    by (simp add: sg rendered_nonempty saveLoop_snoc st del: saveLoop.simps(2))
  also have "\<dots> = (if speakerLabel g \<noteq> cur
                    then (if cur \<noteq> [] then out @ [nl] else out) @ headerLine g
                    else out @ stamp g) @ TrimSpace (seg_Text g) @ [nl]"
    unfolding saveLoop_step by (simp add: textLine_def)
  finally show ?thesis
    by (metis append_assoc)
qed

lemma speakerLabel_async_nonempty: "speakerLabel_async utterance \<noteq> []"
  by (simp add: speakerLabel_async_def)

lemma saveLoop_async_step:
  "saveLoop_async (utterance # rest) (output, currentSpeaker) =
     saveLoop_async rest
       (if speakerLabel_async utterance \<noteq> currentSpeaker
        then ((if currentSpeaker \<noteq> [] then output @ [nl] else output)
                @ headerLine_async utterance @ textLine_async utterance, speakerLabel_async utterance)
        else (output @ stamp_async utterance @ textLine_async utterance, currentSpeaker))"
  by (simp add: Let_def speakerLabel_async_def headerLine_async_def stamp_async_def textLine_async_def)

lemma saveLoop_async_snoc:
  "saveLoop_async (utterances @ [g]) st = saveLoop_async [g] (saveLoop_async utterances st)"
proof (induction utterances arbitrary: st)
  case Nil
  show ?case by (cases st) simp
next
  case (Cons a utterances)
  obtain out cur where st: "st = (out, cur)" by (cases st)
  show ?case
    unfolding st append_Cons saveLoop_async_step by (rule Cons.IH)
qed

lemma saveLoop_async_speaker:
  "snd (saveLoop_async utterances (out, cur)) = (if utterances = [] then cur else speakerLabel_async (last utterances))"
proof (induction utterances arbitrary: out cur)
  case Nil
  show ?case by simp
next
  case (Cons a utterances)
  show ?case
    unfolding saveLoop_async_step by (simp add: Cons.IH)
qed

lemma saveLoop_async_last:
  assumes "utterances \<noteq> []"
  shows "saveLoop_async utterances st = (fst (saveLoop_async utterances st), speakerLabel_async (last utterances))"
proof -
  obtain out cur where st: "st = (out, cur)" by (cases st)
  show ?thesis
    using saveLoop_async_speaker [of utterances out cur] assms unfolding st
    by (metis prod.collapse)
qed

lemma rendered_async_nonempty: "utterances \<noteq> [] \<Longrightarrow> rendered_async transcription utterances = fst (saveLoop_async utterances ([], []))"
  by (simp add: rendered_async_def saveTranscription_output_async_def)

lemma rendered_async_single: "rendered_async transcription [f] = headerLine_async f @ textLine_async f"
  by (simp add: rendered_async_nonempty saveLoop_async_step speakerLabel_async_nonempty del: saveLoop_async.simps(2))

lemma rendered_async_change:
  assumes "utterances \<noteq> []" "speakerLabel_async g \<noteq> speakerLabel_async (last utterances)"
  shows "rendered_async transcription (utterances @ [g]) = rendered_async transcription utterances @ [nl] @ headerLine_async g @ textLine_async g"
proof -
  have "saveLoop_async (utterances @ [g]) ([], []) =
        saveLoop_async [g] (rendered_async transcription utterances, speakerLabel_async (last utterances))"
    using saveLoop_async_last [OF assms(1), of "([], [])"] assms(1)
    by (simp add: saveLoop_async_snoc rendered_async_nonempty del: saveLoop_async.simps(2))
  then show ?thesis
    using assms(2) by (simp add: rendered_async_nonempty saveLoop_async_step speakerLabel_async_nonempty del: saveLoop_async.simps(2))
qed

lemma rendered_async_same:
  assumes "utterances \<noteq> []" "speakerLabel_async g = speakerLabel_async (last utterances)"
  shows "rendered_async transcription (utterances @ [g]) = rendered_async transcription utterances @ stamp_async g @ textLine_async g"
proof -
  have "saveLoop_async (utterances @ [g]) ([], []) =
        saveLoop_async [g] (rendered_async transcription utterances, speakerLabel_async (last utterances))"
    using saveLoop_async_last [OF assms(1), of "([], [])"] assms(1)
    by (simp add: saveLoop_async_snoc rendered_async_nonempty del: saveLoop_async.simps(2))
  then show ?thesis
    using assms(2) by (simp add: rendered_async_nonempty saveLoop_async_step del: saveLoop_async.simps(2))
qed

lemma saveLoop_async_run:
  "\<forall>g \<in> set gs. speakerLabel_async g = cur \<Longrightarrow>
   saveLoop_async gs (out, cur) = (out @ concat (map (\<lambda>g. stamp_async g @ textLine_async g) gs), cur)"
proof (induction gs arbitrary: out)
  case Nil
  show ?case by simp
next
  case (Cons a gs)
  then show ?case
    unfolding saveLoop_async_step by simp
qed

lemma rendered_async_run:
  assumes "\<forall>g \<in> set gs. speakerLabel_async g = speakerLabel_async f"
  shows "rendered_async transcription (f # gs) = headerLine_async f @ textLine_async f @ concat (map (\<lambda>g. stamp_async g @ textLine_async g) gs)"
  using saveLoop_async_run [OF assms]
  by (simp add: rendered_async_nonempty saveLoop_async_step speakerLabel_async_nonempty del: saveLoop_async.simps(2))

section \<open>Splitting\<close>

text \<open>
  The loop of \<open>splitAudioIntoChunks\<close>: what it extracts when it succeeds, and which files
  it leaves behind on each of its returns.
\<close>

lemma files_removeChunks: "files (removeChunks chunks w) = files w - set chunks"
  by (induction chunks arbitrary: w) (auto simp: os_Remove_def)

lemma splitLoop_done: "\<not> i < numChunks \<Longrightarrow> splitLoop env audioFile c numChunks i chunks w = (Inr chunks, w)"
  by (subst splitLoop.simps) simp

lemma splitLoop_step:
  "i < numChunks \<Longrightarrow>
   splitLoop env audioFile c numChunks i chunks w =
     (case os_CreateTemp env (''chunk-'' @ fmt_d i @ ''-*.mp3'') of
        Inl e \<Rightarrow> (Inl (Error (''failed to create temp chunk file: '' @ e)), removeChunks chunks w)
      | Inr chunkPath \<Rightarrow>
          (case ffmpeg_extract env audioFile (i * c) c chunkPath of
             Some (e, stderr) \<Rightarrow>
               (Inl (Error (''ffmpeg chunk extraction failed: '' @ e @ [nl] @ ''Output: '' @ stderr)),
                removeChunks chunks
                  (os_Remove chunkPath
                     (w\<lparr>files := insert chunkPath (files w),
                        extractions := extractions w @ [(i * c, c)]\<rparr>)))
           | None \<Rightarrow>
               splitLoop env audioFile c numChunks (i + 1) (chunks @ [chunkPath])
                 (w\<lparr>files := insert chunkPath (files w),
                    extractions := extractions w @ [(i * c, c)]\<rparr>)))"
  by (subst splitLoop.simps) (simp add: Let_def cong: sum.case_cong option.case_cong)

lemma splitLoop_success:
  "splitLoop env audioFile c numChunks i chunks w = (Inr chunks', w') \<Longrightarrow>
   length chunks' = length chunks + nat (numChunks - i) \<and>
   extractions w' = extractions w @ map (\<lambda>k. (k * c, c)) [i..numChunks - 1]"
proof (induction env audioFile c numChunks i chunks w rule: splitLoop.induct)
  case (1 env audioFile c numChunks i chunks w)
  show ?case
  proof (cases "i < numChunks")
    case False
    then show ?thesis
      using "1.prems" by (simp add: splitLoop_done)
  next
    case True
    note step = splitLoop_step [OF True, of env audioFile c chunks w]
    show ?thesis
    proof (cases "os_CreateTemp env (''chunk-'' @ fmt_d i @ ''-*.mp3'')")
      case (Inl e)
      then show ?thesis using "1.prems" step by simp
    next
      case (Inr chunkPath)
      show ?thesis
      proof (cases "ffmpeg_extract env audioFile (i * c) c chunkPath")
        case (Some a)
        then show ?thesis using "1.prems" step Inr by (simp split: prod.splits)
      next
        case None
        let ?w2 = "w\<lparr>files := insert chunkPath (files w),
                      extractions := extractions w @ [(i * c, c)]\<rparr>"
        have rec: "splitLoop env audioFile c numChunks (i + 1) (chunks @ [chunkPath]) ?w2 = (Inr chunks', w')"
          using "1.prems" step Inr None by simp
        have ih: "length chunks' = length (chunks @ [chunkPath]) + nat (numChunks - (i + 1)) \<and>
            extractions w' = extractions ?w2 @ map (\<lambda>k. (k * c, c)) [i + 1..numChunks - 1]"
          using "1.IH" [OF True refl _ refl refl _ ] Inr None rec by simp
        have up: "[i..numChunks - 1] = i # [i + 1..numChunks - 1]"
          using True by (simp add: upto_rec1)
        show ?thesis
          using ih True by (simp add: up nat_diff_distrib)
      qed
    qed
  qed
qed

lemma splitLoop_files:
  "splitLoop env audioFile c numChunks i chunks w = (r, w') \<Longrightarrow>
   (case r of
      Inr chunks' \<Rightarrow> files w' \<subseteq> files w \<union> set chunks' \<and> set chunks \<subseteq> set chunks'
    | Inl e \<Rightarrow> files w' \<subseteq> files w - set chunks)"
proof (induction env audioFile c numChunks i chunks w rule: splitLoop.induct)
  case (1 env audioFile c numChunks i chunks w)
  show ?case
  proof (cases "i < numChunks")
    case False
    then show ?thesis
      using "1.prems" by (auto simp: splitLoop_done)
  next
    case True
    note step = splitLoop_step [OF True, of env audioFile c chunks w]
    show ?thesis
    proof (cases "os_CreateTemp env (''chunk-'' @ fmt_d i @ ''-*.mp3'')")
      case (Inl e)
      then show ?thesis using "1.prems" step by (auto simp: files_removeChunks)
    next
      case (Inr chunkPath)
      show ?thesis
      proof (cases "ffmpeg_extract env audioFile (i * c) c chunkPath")
        case (Some a)
        then show ?thesis using "1.prems" step Inr
          by (auto simp: files_removeChunks os_Remove_def split: prod.splits)
      next
        case None
        let ?w2 = "w\<lparr>files := insert chunkPath (files w),
                      extractions := extractions w @ [(i * c, c)]\<rparr>"
        have rec: "splitLoop env audioFile c numChunks (i + 1) (chunks @ [chunkPath]) ?w2 = (r, w')"
          using "1.prems" step Inr None by simp
        note ih = "1.IH" [OF True refl Inr refl refl None]
        show ?thesis
        proof (cases r)
          case (Inl e)
          then show ?thesis using ih rec by auto
        next
          case (Inr chunks')
          then show ?thesis using ih rec by auto
        qed
      qed
    qed
  qed
qed

lemma splitLoop_fresh:
  "splitLoop env audioFile c numChunks i chunks w = (r, w') \<Longrightarrow>
   \<forall>i p. os_CreateTemp env (''chunk-'' @ fmt_d i @ ''-*.mp3'') = Inr p \<longrightarrow> p \<notin> F \<Longrightarrow>
   files w = F \<union> set chunks \<Longrightarrow> set chunks \<inter> F = {} \<Longrightarrow>
   (case r of
      Inr chunks' \<Rightarrow> files w' = F \<union> set chunks' \<and> set chunks' \<inter> F = {}
    | Inl e \<Rightarrow> files w' = F)"
proof (induction env audioFile c numChunks i chunks w rule: splitLoop.induct)
  case (1 env audioFile c numChunks i chunks w)
  note run = "1.prems"(1) and fresh = "1.prems"(2) and inv = "1.prems"(3,4)
  show ?case
  proof (cases "i < numChunks")
    case False
    then show ?thesis
      using run inv by (auto simp: splitLoop_done)
  next
    case True
    note step = splitLoop_step [OF True, of env audioFile c chunks w]
    show ?thesis
    proof (cases "os_CreateTemp env (''chunk-'' @ fmt_d i @ ''-*.mp3'')")
      case (Inl e)
      then show ?thesis using run inv step by (auto simp: files_removeChunks)
    next
      case (Inr chunkPath)
      then have notin: "chunkPath \<notin> F" using fresh by blast
      show ?thesis
      proof (cases "ffmpeg_extract env audioFile (i * c) c chunkPath")
        case (Some a)
        then show ?thesis using run inv step Inr notin
          by (auto simp: files_removeChunks os_Remove_def split: prod.splits)
      next
        case None
        let ?w2 = "w\<lparr>files := insert chunkPath (files w),
                      extractions := extractions w @ [(i * c, c)]\<rparr>"
        have rec: "splitLoop env audioFile c numChunks (i + 1) (chunks @ [chunkPath]) ?w2 = (r, w')"
          using run step Inr None by simp
        have inv2: "files ?w2 = F \<union> set (chunks @ [chunkPath])" "set (chunks @ [chunkPath]) \<inter> F = {}"
          using inv notin by auto
        note ih = "1.IH" [OF True refl Inr refl refl None _ fresh]
        show ?thesis
        proof (cases r)
          case (Inl e)
          then show ?thesis using ih rec inv2 by auto
        next
          case (Inr chunks')
          then show ?thesis using ih rec inv2 by auto
        qed
      qed
    qed
  qed
qed

lemma upto_as_upt: "0 \<le> n \<Longrightarrow> [0..n - 1] = map int [0..<nat n]"
proof (induction "nat n" arbitrary: n)
  case 0
  then show ?case by simp
next
  case (Suc m)
  then have n: "nat n = Suc m" "0 < n" by auto
  have m: "m = nat (n - 1)" using n by simp
  have "[0..n - 1] = [0..(n - 1) - 1] @ [n - 1]"
    using n by (simp add: upto_rec2)
  also have "[0..(n - 1) - 1] = map int [0..<nat (n - 1)]"
    using Suc.hyps(1) [OF m] n by simp
  finally show ?case
    using n m by simp
qed

lemma numChunks_eq:
  assumes "0 \<le> D" "0 < c"
  shows "go_int D sdiv c + 1 = \<lfloor>D / real_of_int c\<rfloor> + 1"
  using assms by (simp add: go_int_nonneg sdiv_nonneg floor_divide_real_eq_div)

lemma split_plan:
  assumes probe: "ffprobe env audioFile = ProbeDuration D" and D: "0 \<le> D" and c: "0 < c"
    and run: "splitAudioIntoChunks env audioFile c w = (Inr chunks, w')"
  shows "length chunks = nat (\<lfloor>D / real_of_int c\<rfloor> + 1) \<and>
         extractions w' = extractions w @ chunkPlan c (length chunks)"
proof -
  let ?n = "\<lfloor>D / real_of_int c\<rfloor> + 1"
  have n0: "0 \<le> ?n" using D c by simp
  have "splitLoop env audioFile c ?n 0 [] w = (Inr chunks, w')"
    using run probe c numChunks_eq [OF D c]
    by (simp add: splitAudioIntoChunks_def getAudioDuration_def Let_def)
  from splitLoop_success [OF this]
  have len: "length chunks = nat ?n"
    and ex: "extractions w' = extractions w @ map (\<lambda>k. (k * c, c)) [0..?n - 1]"
    by simp_all
  have "map (\<lambda>k. (k * c, c)) [0..?n - 1] = chunkPlan c (nat ?n)"
    unfolding upto_as_upt [OF n0] by (simp add: chunkPlan_def comp_def)
  then show ?thesis using len ex by simp
qed

lemma plan_bounds:
  assumes D: "0 \<le> D" and c: "0 < c"
  shows "real_of_int (\<lfloor>D / real_of_int c\<rfloor> * c) \<le> D"
    and "D < real_of_int ((\<lfloor>D / real_of_int c\<rfloor> + 1) * c)"
proof -
  have rc: "0 < real_of_int c" using c by simp
  have "real_of_int \<lfloor>D / real_of_int c\<rfloor> * real_of_int c \<le> D"
    unfolding pos_le_divide_eq [OF rc, symmetric] by (rule of_int_floor_le)
  then show "real_of_int (\<lfloor>D / real_of_int c\<rfloor> * c) \<le> D" by simp
  have "D / real_of_int c < real_of_int \<lfloor>D / real_of_int c\<rfloor> + 1" by linarith
  then have "D < (real_of_int \<lfloor>D / real_of_int c\<rfloor> + 1) * real_of_int c"
    unfolding pos_divide_less_eq [OF rc] .
  then show "D < real_of_int ((\<lfloor>D / real_of_int c\<rfloor> + 1) * c)" by simp
qed

lemma plan_extents:
  assumes D: "0 \<le> D" and c: "0 < c"
  defines "n \<equiv> nat (\<lfloor>D / real_of_int c\<rfloor> + 1)"
  shows "0 < n"
    and "fst (chunkExtent D (chunkPlan c n ! 0)) = 0"
    and "\<forall>i. Suc i < n \<longrightarrow> snd (chunkExtent D (chunkPlan c n ! i)) = fst (chunkExtent D (chunkPlan c n ! Suc i))"
    and "snd (chunkExtent D (chunkPlan c n ! (n - 1))) = D"
    and "snd (chunkExtent D (chunkPlan c n ! (n - 1))) - fst (chunkExtent D (chunkPlan c n ! (n - 1)))
          = D - real (n - 1) * real_of_int c"
proof -
  let ?q = "\<lfloor>D / real_of_int c\<rfloor>"
  have q0: "0 \<le> ?q" using D c by simp
  have n: "n = Suc (nat ?q)" using q0 by (simp add: n_def nat_add_distrib)
  show "0 < n" by (simp add: n)
  show "fst (chunkExtent D (chunkPlan c n ! 0)) = 0"
    by (simp add: n chunkPlan_def chunkExtent_def upt_conv_Cons del: upt_Suc)
  have lo: "real_of_int (?q * c) \<le> D" and hi: "D < real_of_int ((?q + 1) * c)"
    using plan_bounds [OF D c] by simp_all
  show "\<forall>i. Suc i < n \<longrightarrow> snd (chunkExtent D (chunkPlan c n ! i)) = fst (chunkExtent D (chunkPlan c n ! Suc i))"
  proof (intro allI impI)
    fix i assume i: "Suc i < n"
    then have "int (Suc i) \<le> ?q" using q0 by (simp add: n)
    then have "int (Suc i) * c \<le> ?q * c" using c by (simp add: mult_right_mono)
    then have "real_of_int (int (Suc i) * c) \<le> D" using lo by linarith
    then have "min (real_of_int (int i * c + c)) D = real_of_int (int (Suc i) * c)"
      by (simp add: algebra_simps)
    then show "snd (chunkExtent D (chunkPlan c n ! i)) = fst (chunkExtent D (chunkPlan c n ! Suc i))"
      using i by (simp add: chunkPlan_def chunkExtent_def del: upt_Suc)
  qed
  have last: "chunkPlan c n ! (n - 1) = (?q * c, c)"
    using q0 by (simp add: n chunkPlan_def del: upt_Suc)
  show "snd (chunkExtent D (chunkPlan c n ! (n - 1))) = D"
    unfolding last chunkExtent_def using hi by (simp add: algebra_simps)
  then show "snd (chunkExtent D (chunkPlan c n ! (n - 1))) - fst (chunkExtent D (chunkPlan c n ! (n - 1)))
          = D - real (n - 1) * real_of_int c"
    unfolding last chunkExtent_def using q0 hi by (simp add: n algebra_simps)
qed

lemma plan_extent_order:
  assumes D: "0 \<le> D" and c: "0 < c" and i: "i < nat (\<lfloor>D / real_of_int c\<rfloor> + 1)"
  shows "fst (chunkExtent D (chunkPlan c (nat (\<lfloor>D / real_of_int c\<rfloor> + 1)) ! i))
         \<le> snd (chunkExtent D (chunkPlan c (nat (\<lfloor>D / real_of_int c\<rfloor> + 1)) ! i))"
proof -
  let ?q = "\<lfloor>D / real_of_int c\<rfloor>"
  have q0: "0 \<le> ?q" using D c by simp
  have "int i \<le> ?q" using i q0 by simp
  then have "int i * c \<le> ?q * c" using c by (simp add: mult_right_mono)
  moreover have "real_of_int (?q * c) \<le> D" by (rule plan_bounds(1) [OF D c])
  ultimately have "real_of_int (int i * c) \<le> D" by linarith
  then show ?thesis
    using i c by (simp add: chunkPlan_def chunkExtent_def del: upt_Suc)
qed

section \<open>Transcribing the chunks\<close>

text \<open>
  The loop over the chunks touches no file; its result is determined by the responses
  of the chunks, up to the first one that fails.
\<close>

lemma shiftLoop_eq:
  "shiftLoop timeOffset segments (transcription, allSegments) =
     (transcription, allSegments @ map (shifted timeOffset) segments)"
  by (induction segments arbitrary: allSegments) (simp_all add: shifted_def Let_def)

lemma transcribeAudio_world:
  "snd (transcribeAudio env audioFile apiKey w) = w\<lparr>calls := calls w @ [audioFile]\<rparr>"
  by (simp add: transcribeAudio_def Let_def split: sum.splits prod.splits)

lemma chunkLoop_step:
  "chunkLoop env apiKey (chunk # rest) i (allSegments, fullText, timeOffset) w =
     (case fst (transcribeAudio env chunk apiKey w) of
        Inl err \<Rightarrow> (Inl (wrap (''failed to transcribe chunk '' @ fmt_d i @ '': '') err),
                    w\<lparr>calls := calls w @ [chunk]\<rparr>)
      | Inr transcription \<Rightarrow>
          chunkLoop env apiKey rest (i + 1)
            (allSegments @ map (shifted timeOffset) (resp_Segments transcription),
             fullText @ (if resp_Text transcription \<noteq> [] then resp_Text transcription @ '' '' else []),
             timeOffset + real_of_int chunkDuration)
            (w\<lparr>calls := calls w @ [chunk]\<rparr>))"
proof -
  obtain r w1 where t: "transcribeAudio env chunk apiKey w = (r, w1)"
    by (cases "transcribeAudio env chunk apiKey w")
  have w1: "w1 = w\<lparr>calls := calls w @ [chunk]\<rparr>"
    using transcribeAudio_world [of env chunk apiKey w] t by simp
  show ?thesis
    by (cases r) (simp_all add: t w1 shiftLoop_eq Let_def)
qed

lemma chunkLoop_world:
  "files (snd (chunkLoop env apiKey chunks i st w)) = files w \<and>
   extractions (snd (chunkLoop env apiKey chunks i st w)) = extractions w \<and>
   written (snd (chunkLoop env apiKey chunks i st w)) = written w"
proof (induction chunks arbitrary: i st w)
  case Nil
  show ?case by (cases st) auto
next
  case (Cons chunk rest)
  obtain a f t where st: "st = (a, f, t)" by (cases st)
  show ?case
    unfolding st chunkLoop_step
    by (cases "fst (transcribeAudio env chunk apiKey w)") (simp_all add: Cons.IH)
qed

lemma chunkLoop_success:
  assumes "length rs = length chunks"
    and "\<forall>j<length chunks. \<forall>w. fst (transcribeAudio env (chunks ! j) apiKey w) = Inr (rs ! j)"
  shows "chunkLoop env apiKey chunks i (allSegments, fullText, timeOffset) w =
     (Inr (allSegments @ concat (map (\<lambda>j. map (shifted (timeOffset + real j * real_of_int chunkDuration))
                                           (resp_Segments (rs ! j))) [0..<length rs]),
           fullText @ concat (map (\<lambda>r. if resp_Text r \<noteq> [] then resp_Text r @ '' '' else []) rs),
           timeOffset + real (length rs) * real_of_int chunkDuration),
      w\<lparr>calls := calls w @ chunks\<rparr>)"
  using assms
proof (induction chunks arbitrary: rs i allSegments fullText timeOffset w)
  case Nil
  then show ?case by simp
next
  case (Cons chunk rest)
  from Cons.prems(1) obtain r rs' where rs: "rs = r # rs'" and len: "length rs' = length rest"
    by (cases rs) auto
  have hd: "fst (transcribeAudio env chunk apiKey w) = Inr r"
    using Cons.prems(2) rs by (metis length_greater_0_conv list.discI nth_Cons_0)
  have tl: "\<forall>j<length rest. \<forall>w. fst (transcribeAudio env (rest ! j) apiKey w) = Inr (rs' ! j)"
    using Cons.prems(2) rs by (metis Suc_less_eq length_Cons nth_Cons_Suc)
  have idx: "[0..<Suc (length rs')] = 0 # map Suc [0..<length rs']"
    by (simp add: upt_conv_Cons map_Suc_upt del: upt_Suc)
  show ?case
    unfolding chunkLoop_step hd
    by (simp add: Cons.IH [OF len tl] rs idx comp_def algebra_simps del: upt_Suc)
qed

lemma chunkLoop_failure:
  assumes "j < length chunks"
    and "\<forall>m<j. \<forall>w. \<exists>r. fst (transcribeAudio env (chunks ! m) apiKey w) = Inr r"
    and "\<forall>w. fst (transcribeAudio env (chunks ! j) apiKey w) = Inl err"
  shows "fst (chunkLoop env apiKey chunks i st w) =
         Inl (wrap (''failed to transcribe chunk '' @ fmt_d (i + int j) @ '': '') err)"
  using assms
proof (induction chunks arbitrary: j i st w)
  case Nil
  then show ?case by simp
next
  case (Cons chunk rest)
  obtain a f t where st: "st = (a, f, t)" by (cases st)
  show ?case
  proof (cases j)
    case 0
    then show ?thesis
      using Cons.prems(3) unfolding st chunkLoop_step by simp
  next
    case (Suc j')
    obtain r where r: "fst (transcribeAudio env chunk apiKey w) = Inr r"
      using Cons.prems(2) Suc by (metis nth_Cons_0 zero_less_Suc)
    have 1: "j' < length rest" using Cons.prems(1) Suc by simp
    have 2: "\<forall>m<j'. \<forall>w. \<exists>r. fst (transcribeAudio env (rest ! m) apiKey w) = Inr r"
      using Cons.prems(2) Suc by (metis Suc_less_eq nth_Cons_Suc)
    have 3: "\<forall>w. fst (transcribeAudio env (rest ! j') apiKey w) = Inl err"
      using Cons.prems(3) Suc by simp
    show ?thesis
      unfolding st chunkLoop_step r
      using Cons.IH [OF 1 2 3, of "i + 1"] Suc by (simp add: algebra_simps)
  qed
qed

lemma inChunks_files:
  "files (snd (transcribeAudioInChunks env audioFile apiKey duration w)) \<subseteq> files w"
proof -
  obtain r w1 where sp: "splitAudioIntoChunks env audioFile chunkDuration w = (r, w1)"
    by (cases "splitAudioIntoChunks env audioFile chunkDuration w")
  show ?thesis
  proof (cases "getAudioDuration env audioFile")
    case (Inl e)
    then show ?thesis
      by (simp add: transcribeAudioInChunks_def splitAudioIntoChunks_def)
  next
    case (Inr D)
    then have loop: "splitLoop env audioFile chunkDuration (go_int D sdiv chunkDuration + 1) 0 [] w = (r, w1)"
      using sp by (simp add: splitAudioIntoChunks_def chunkDuration_def Let_def)
    note inv = splitLoop_files [OF loop]
    show ?thesis
    proof (cases r)
      case (Inl e)
      then show ?thesis
        using inv by (simp add: transcribeAudioInChunks_def sp)
    next
      case (Inr chunks)
      obtain r2 w2 where cl: "chunkLoop env apiKey chunks 0 ([], [], 0) w1 = (r2, w2)"
        by (cases "chunkLoop env apiKey chunks 0 ([], [], 0) w1")
      have "files w2 = files w1"
        using chunkLoop_world [of env apiKey chunks 0 "([], [], 0)" w1] cl by simp
      then have "files (removeChunks chunks w2) \<subseteq> files w"
        using inv Inr by (auto simp: files_removeChunks)
      then show ?thesis
        by (cases r2) (auto simp: transcribeAudioInChunks_def sp Inr cl)
    qed
  qed
qed

lemma concat_spaced:
  "concat (map (\<lambda>t. t @ '' '') ts) = (if ts = [] then [] else joinSpace ts @ '' '')"
  by (induction ts rule: joinSpace.induct) simp_all

lemma fullText_filter:
  "concat (map (\<lambda>r. if resp_Text r \<noteq> [] then resp_Text r @ '' '' else []) rs) =
   concat (map (\<lambda>t. t @ '' '') (filter (\<lambda>t. t \<noteq> []) (map resp_Text rs)))"
  by (induction rs) simp_all

lemma TrimSpace_fullText:
  "TrimSpace (concat (map (\<lambda>r. if resp_Text r \<noteq> [] then resp_Text r @ '' '' else []) rs)) =
   TrimSpace (joinSpace (filter (\<lambda>t. t \<noteq> []) (map resp_Text rs)))"
  unfolding fullText_filter concat_spaced
  by (simp add: TrimSpace_snoc_space)

lemma inChunks_success:
  assumes split: "splitAudioIntoChunks env audioFile chunkDuration w = (Inr chunks, w1)"
    and len: "length rs = length chunks"
    and resp: "\<forall>j<length chunks. \<forall>w. fst (transcribeAudio env (chunks ! j) apiKey w) = Inr (rs ! j)"
  shows "transcribeAudioInChunks env audioFile apiKey duration w =
     (Inr \<lparr>resp_Text =
             TrimSpace (concat (map (\<lambda>r. if resp_Text r \<noteq> [] then resp_Text r @ '' '' else []) rs)),
           resp_Segments =
             concat (map (\<lambda>j. map (shifted (real j * real_of_int chunkDuration))
                                 (resp_Segments (rs ! j))) [0..<length rs])\<rparr>,
      removeChunks chunks (w1\<lparr>calls := calls w1 @ chunks\<rparr>))"
  using chunkLoop_success [OF len resp, of 0 "[]" "[]" 0 w1]
  by (simp add: transcribeAudioInChunks_def split)

lemma inChunks_failure:
  assumes split: "splitAudioIntoChunks env audioFile chunkDuration w = (Inr chunks, w1)"
    and "j < length chunks"
    and "\<forall>m<j. \<forall>w. \<exists>r. fst (transcribeAudio env (chunks ! m) apiKey w) = Inr r"
    and "\<forall>w. fst (transcribeAudio env (chunks ! j) apiKey w) = Inl err"
  shows "fst (transcribeAudioInChunks env audioFile apiKey duration w) =
         Inl (wrap (''failed to transcribe chunk '' @ fmt_d (int j) @ '': '') err)"
proof -
  obtain r2 w2 where cl: "chunkLoop env apiKey chunks 0 ([], [], 0) w1 = (r2, w2)"
    by (cases "chunkLoop env apiKey chunks 0 ([], [], 0) w1")
  have "r2 = Inl (wrap (''failed to transcribe chunk '' @ fmt_d (int j) @ '': '') err)"
    using chunkLoop_failure [OF assms(2-4), of 0 "([], [], 0)" w1] cl by simp
  then show ?thesis
    by (simp add: transcribeAudioInChunks_def split cl)
qed

lemma inChunks_chunks_gone:
  assumes split: "splitAudioIntoChunks env audioFile chunkDuration w = (Inr chunks, w1)"
  shows "set chunks \<inter> files (snd (transcribeAudioInChunks env audioFile apiKey duration w)) = {}"
proof -
  obtain r2 w2 where cl: "chunkLoop env apiKey chunks 0 ([], [], 0) w1 = (r2, w2)"
    by (cases "chunkLoop env apiKey chunks 0 ([], [], 0) w1")
  have "snd (transcribeAudioInChunks env audioFile apiKey duration w) = removeChunks chunks w2"
    by (cases r2) (auto simp: transcribeAudioInChunks_def split cl)
  then show ?thesis
    by (auto simp: files_removeChunks)
qed

lemma inChunks_fresh:
  assumes fresh: "\<forall>i p. os_CreateTemp env (''chunk-'' @ fmt_d i @ ''-*.mp3'') = Inr p \<longrightarrow> p \<notin> files w"
  shows "files (snd (transcribeAudioInChunks env audioFile apiKey duration w)) = files w"
proof -
  obtain r w1 where sp: "splitAudioIntoChunks env audioFile chunkDuration w = (r, w1)"
    by (cases "splitAudioIntoChunks env audioFile chunkDuration w")
  show ?thesis
  proof (cases "getAudioDuration env audioFile")
    case (Inl e)
    then show ?thesis
      by (simp add: transcribeAudioInChunks_def splitAudioIntoChunks_def)
  next
    case (Inr D)
    then have loop: "splitLoop env audioFile chunkDuration (go_int D sdiv chunkDuration + 1) 0 [] w = (r, w1)"
      using sp by (simp add: splitAudioIntoChunks_def chunkDuration_def Let_def)
    have inv: "case r of Inr chunks' \<Rightarrow> files w1 = files w \<union> set chunks' \<and> set chunks' \<inter> files w = {}
                | Inl e \<Rightarrow> files w1 = files w"
      by (rule splitLoop_fresh [OF loop fresh]) simp_all
    show ?thesis
    proof (cases r)
      case (Inl e)
      then show ?thesis
        using inv by (simp add: transcribeAudioInChunks_def sp)
    next
      case (Inr chunks)
      obtain r2 w2 where cl: "chunkLoop env apiKey chunks 0 ([], [], 0) w1 = (r2, w2)"
        by (cases "chunkLoop env apiKey chunks 0 ([], [], 0) w1")
      have w2: "files w2 = files w1"
        using chunkLoop_world [of env apiKey chunks 0 "([], [], 0)" w1] cl by simp
      have w1: "files w1 = files w \<union> set chunks" and disj: "set chunks \<inter> files w = {}"
        using inv Inr by simp_all
      have gone: "files (removeChunks chunks w2) = files w"
        unfolding files_removeChunks w2 w1 using disj by blast
      have "snd (transcribeAudioInChunks env audioFile apiKey duration w) = removeChunks chunks w2"
        by (cases r2) (simp_all add: transcribeAudioInChunks_def sp Inr cl split: prod.splits)
      then show ?thesis
        by (simp only: gone)
    qed
  qed
qed

section \<open>The asynchronous client\<close>

text \<open>
  The poll loop runs through pending answers, stops at the first answer that is not
  pending, and never returns when there is none. The upload, the job submission and the
  synchronous client report a status code other than 200 with the body; the poll loop
  decides on the decoded body alone.
\<close>

lemma pollLoop_pending:
  "pendingFor env pollingURL apiKey n transcription k = Some tk \<Longrightarrow>
   pollLoop env pollingURL apiKey n transcription w =
   pollLoop env pollingURL apiKey (n + k) tk (w\<lparr>sleeps := sleeps w @ replicate k (3 * Second)\<rparr>)"
proof (induction k arbitrary: n transcription w)
  case 0
  then show ?case by simp
next
  case (Suc k)
  from Suc.prems obtain StatusCode body where
    poll: "assembly_poll env pollingURL apiKey n = Inr (StatusCode, body)"
    by (auto split: sum.splits prod.splits)
  from Suc.prems poll obtain t1 where
    dec: "json_Unmarshal_job env body transcription = Inr t1"
    by (auto split: sum.splits)
  from Suc.prems poll dec have
    pending: "job_Status t1 = ''queued'' \<or> job_Status t1 = ''processing''"
    and rest: "pendingFor env pollingURL apiKey (n + 1) t1 k = Some tk"
    by (auto split: if_splits)
  have "pollLoop env pollingURL apiKey n transcription w =
        pollLoop env pollingURL apiKey (n + 1) t1 (w\<lparr>sleeps := sleeps w @ [3 * Second]\<rparr>)"
    using pending by (subst pollLoop.simps) (auto simp: poll dec)
  also have "\<dots> = pollLoop env pollingURL apiKey (n + 1 + k) tk
        ((w\<lparr>sleeps := sleeps w @ [3 * Second]\<rparr>)\<lparr>sleeps := sleeps (w\<lparr>sleeps := sleeps w @ [3 * Second]\<rparr>) @ replicate k (3 * Second)\<rparr>)"
    by (rule Suc.IH [OF rest])
  finally show ?case
    by (simp add: replicate_append_same)
qed

lemma pollLoop_terminal:
  assumes "assembly_poll env pollingURL apiKey n = Inr (StatusCode, body)"
    and "json_Unmarshal_job env body transcription = Inr t1"
    and "job_Status t1 \<noteq> ''queued''" "job_Status t1 \<noteq> ''processing''"
  shows "pollLoop env pollingURL apiKey n transcription w =
     Some (if job_Status t1 = ''completed'' then Inr t1
           else if job_Status t1 = ''error''
           then Inl (Error (''transcription failed: '' @ job_Error t1))
           else Inl (Error (''unexpected status: '' @ job_Status t1)), w)"
  using assms by (subst pollLoop.simps) simp

lemma pollLoop_returns_not_pending:
  assumes "pollLoop env pollingURL apiKey n transcription w = Some y"
  shows "\<exists>k. pendingFor env pollingURL apiKey n transcription k = None"
proof (rule pollLoop.raw_induct
    [where P = "\<lambda>env pollingURL apiKey n transcription w y.
                  \<exists>k. pendingFor env pollingURL apiKey n transcription k = None",
     OF _ assms], goal_cases)
  case (1 pollLoop' env pollingURL apiKey n transcription w y)
  note ih = "1"(1) and body = "1"(2)
  show ?case
  proof (cases "assembly_poll env pollingURL apiKey n")
    case (Inl a)
    then have "pendingFor env pollingURL apiKey n transcription (Suc 0) = None" by simp
    then show ?thesis by blast
  next
    case (Inr b)
    obtain StatusCode body where b: "b = (StatusCode, body)" by (cases b)
    show ?thesis
    proof (cases "json_Unmarshal_job env body transcription")
      case (Inl e)
      then have "pendingFor env pollingURL apiKey n transcription (Suc 0) = None"
        using Inr b by simp
      then show ?thesis by blast
    next
      case dec: (Inr t1)
      show ?thesis
      proof (cases "job_Status t1 = ''queued'' \<or> job_Status t1 = ''processing''")
        case False
        then have "pendingFor env pollingURL apiKey n transcription (Suc 0) = None"
          using Inr b dec by simp
        then show ?thesis by blast
      next
        case True
        then have "pollLoop' env pollingURL apiKey (n + 1) t1 (w\<lparr>sleeps := sleeps w @ [3 * Second]\<rparr>) = Some y"
          using body Inr b dec by auto
        from ih [OF this] obtain k where
          "pendingFor env pollingURL apiKey (n + 1) t1 k = None" by blast
        then have "pendingFor env pollingURL apiKey n transcription (Suc k) = None"
          using Inr b dec True by simp
        then show ?thesis by blast
      qed
    qed
  qed
qed

lemma pollLoop_forever:
  assumes "\<forall>k. pendingFor env pollingURL apiKey n transcription k \<noteq> None"
  shows "pollLoop env pollingURL apiKey n transcription w = None"
proof (cases "pollLoop env pollingURL apiKey n transcription w")
  case None
  then show ?thesis .
next
  case (Some y)
  from pollLoop_returns_not_pending [OF this] assms show ?thesis by blast
qed

lemma uploadAudio_status:
  "assembly_upload env audioFile apiKey = Inr (StatusCode, body) \<Longrightarrow> StatusCode \<noteq> 200 \<Longrightarrow>
   uploadAudio env audioFile apiKey =
     Inl (Error (''upload failed with status '' @ fmt_d StatusCode @ '': '' @ body))"
  by (simp add: uploadAudio_def)

lemma submit_status:
  "assembly_submit env audioURL apiKey = Inr (StatusCode, body) \<Longrightarrow> StatusCode \<noteq> 200 \<Longrightarrow>
   transcribeAudio_async env audioURL apiKey w =
     Some (Inl (Error (''transcription request failed with status '' @ fmt_d StatusCode @ '': ''
                       @ body)), w)"
  by (simp add: transcribeAudio_async_def)

lemma transcribeAudio_status:
  "openai_post env audioFile apiKey = Inr (StatusCode, body) \<Longrightarrow> StatusCode \<noteq> 200 \<Longrightarrow>
   fst (transcribeAudio env audioFile apiKey w) =
     Inl (Error (''API request failed with status '' @ fmt_d StatusCode @ '': '' @ body))"
  by (simp add: transcribeAudio_def Let_def)

lemma poll_status_ignored:
  "assembly_poll env pollingURL apiKey n = Inr (StatusCode, body) \<Longrightarrow>
   pollLoop env pollingURL apiKey n transcription w =
     (case json_Unmarshal_job env body transcription of
        Inl e \<Rightarrow> Some (Inl (Error (''failed to parse polling response: '' @ e)), w)
      | Inr transcription1 \<Rightarrow>
          if job_Status transcription1 = ''completed''
          then Some (Inr transcription1, w)
          else if job_Status transcription1 = ''error''
          then Some (Inl (Error (''transcription failed: '' @ job_Error transcription1)), w)
          else if job_Status transcription1 = ''queued''
                  \<or> job_Status transcription1 = ''processing''
          then pollLoop env pollingURL apiKey (n + 1) transcription1
                 (w\<lparr>sleeps := sleeps w @ [3 * Second]\<rparr>)
          else Some (Inl (Error (''unexpected status: '' @ job_Status transcription1)), w))"
  by (subst pollLoop.simps) simp

section \<open>Evaluation of the samples\<close>

text \<open>Rewrite rules that evaluate the model on concrete inputs, and the sample runs.\<close>

lemmas eval_time = formatTimestamp_fields fmt_02d_def fmt_d_def showNat_small showNat_big digit_def
lemmas eval_trim = TrimSpace_def trimLeft.simps trimRight.simps spaceRunes_def suffix_to_prefix
lemmas eval_env = demo_env_def demo_world_def demo_decode_def

lemma demo_split:
  "splitAudioIntoChunks demo_env ''audio.mp3'' chunkDuration demo_world =
     (Inr [''/tmp/chunk-0-*.mp3'', ''/tmp/chunk-1-*.mp3'', ''/tmp/chunk-2-*.mp3''],
      demo_world\<lparr>files := {''/tmp/chunk-0-*.mp3'', ''/tmp/chunk-1-*.mp3'', ''/tmp/chunk-2-*.mp3''},
                  extractions := [(0, 1200), (1200, 1200), (2400, 1200)]\<rparr>)"
  by (simp add: splitAudioIntoChunks_def getAudioDuration_def eval_env chunkDuration_def
      go_int_def signed_divide_int_def splitLoop.simps Let_def fmt_d_def showNat_small digit_def
      insert_commute)

lemma sample_lines:
  "headerLine seg_a1 = ''[00:00:00 - 00:00:01] A:'' @ [nl]"
  "textLine seg_a1 = ''hello'' @ [nl]"
  "stamp seg_a2 = ''[00:00:01 - 00:00:03] ''"
  "textLine seg_a2 = ''again'' @ [nl]"
  "headerLine seg_u = ''[00:00:03 - 01:01:01] Unknown:'' @ [nl]"
  "textLine seg_u = ''who'' @ [nl]"
  by (simp_all add: headerLine_def textLine_def stamp_def speakerLabel_def
      seg_a1_def seg_a2_def seg_u_def eval_time eval_trim)

lemma sample_lines_async:
  "headerLine_async utt_a = ''[00:00:00 - 00:00:01] Speaker A:'' @ [nl]"
  "textLine_async utt_a = ''hello'' @ [nl]"
  "headerLine_async utt_b = ''[00:00:01 - 00:01:01] Speaker B:'' @ [nl]"
  "textLine_async utt_b = ''hi'' @ [nl]"
  by (simp_all add: headerLine_async_def textLine_async_def stamp_async_def speakerLabel_async_def
      utt_a_def utt_b_def eval_time eval_trim)

lemma demo_responses:
  "fst (transcribeAudio demo_env ''/tmp/chunk-0-*.mp3'' k w) =
     Inr \<lparr>resp_Text = ''a'', resp_Segments = [seg_a1]\<rparr>"
  "fst (transcribeAudio demo_env ''/tmp/chunk-1-*.mp3'' k w) =
     Inr \<lparr>resp_Text = [], resp_Segments = []\<rparr>"
  "fst (transcribeAudio demo_env ''/tmp/chunk-2-*.mp3'' k w) =
     Inr \<lparr>resp_Text = ''b'', resp_Segments = [seg_b]\<rparr>"
  by (simp_all add: transcribeAudio_def demo_env_def demo_decode_def Let_def seg_a1_def seg_b_def)

lemma demo_responses_all:
  "\<forall>j<length [''/tmp/chunk-0-*.mp3'', ''/tmp/chunk-1-*.mp3'', ''/tmp/chunk-2-*.mp3''].
     \<forall>w. fst (transcribeAudio demo_env
                ([''/tmp/chunk-0-*.mp3'', ''/tmp/chunk-1-*.mp3'', ''/tmp/chunk-2-*.mp3''] ! j) k w)
          = Inr ([\<lparr>resp_Text = ''a'', resp_Segments = [seg_a1]\<rparr>,
                  \<lparr>resp_Text = [], resp_Segments = []\<rparr>,
                  \<lparr>resp_Text = ''b'', resp_Segments = [seg_b]\<rparr>] ! j)"
proof (intro allI impI)
  fix j :: nat and w
  assume "j < length [''/tmp/chunk-0-*.mp3'', ''/tmp/chunk-1-*.mp3'', ''/tmp/chunk-2-*.mp3'']"
  then have "j = 0 \<or> j = 1 \<or> j = 2" by auto
  then show "fst (transcribeAudio demo_env
                ([''/tmp/chunk-0-*.mp3'', ''/tmp/chunk-1-*.mp3'', ''/tmp/chunk-2-*.mp3''] ! j) k w)
          = Inr ([\<lparr>resp_Text = ''a'', resp_Segments = [seg_a1]\<rparr>,
                  \<lparr>resp_Text = [], resp_Segments = []\<rparr>,
                  \<lparr>resp_Text = ''b'', resp_Segments = [seg_b]\<rparr>] ! j)"
    using demo_responses [of k w] by auto
qed

lemma flaky_split:
  "splitAudioIntoChunks flaky_env ''audio.mp3'' chunkDuration demo_world =
     (Inr [''/tmp/chunk-0-*.mp3'', ''/tmp/chunk-1-*.mp3'', ''/tmp/chunk-2-*.mp3''],
      demo_world\<lparr>files := {''/tmp/chunk-0-*.mp3'', ''/tmp/chunk-1-*.mp3'', ''/tmp/chunk-2-*.mp3''},
                  extractions := [(0, 1200), (1200, 1200), (2400, 1200)]\<rparr>)"
  by (simp add: splitAudioIntoChunks_def getAudioDuration_def flaky_env_def eval_env
      chunkDuration_def go_int_def signed_divide_int_def splitLoop.simps Let_def fmt_d_def
      showNat_small digit_def insert_commute)

lemma flaky_responses:
  "fst (transcribeAudio flaky_env ''/tmp/chunk-0-*.mp3'' k w) =
     Inr \<lparr>resp_Text = ''a'', resp_Segments = [seg_a1]\<rparr>"
  "fst (transcribeAudio flaky_env ''/tmp/chunk-1-*.mp3'' k w) =
     Inl (Error ''API request failed with status 503: busy'')"
  by (simp_all add: transcribeAudio_def flaky_env_def demo_env_def demo_decode_def Let_def
      seg_a1_def fmt_d_def showNat_small showNat_big digit_def)

section \<open>The claims\<close>

text \<open>
  C1. When the probed duration \<open>D\<close> exceeds the single-call threshold (and fits Go's
  \<open>int\<close>) and every chunk is extracted, the extractions requested are exactly
  \<open>\<lfloor>D / chunkDuration\<rfloor> + 1\<close>; the \<open>i\<close>-th starts at \<open>i * chunkDuration\<close> and asks
  for \<open>chunkDuration\<close> seconds. Clipped to the end of the audio, the chunks start at 0,
  each ends where the next begins, the last one ends at \<open>D\<close> and is
  \<open>D - (n - 1) * chunkDuration\<close> long.
\<close>

theorem chunk_plan_covers_duration:
  assumes "ffprobe env audioFile = ProbeDuration D"
    and "real_of_int maxDuration < D" and "D < 2 ^ 63"
    and "splitAudioIntoChunks env audioFile chunkDuration w = (Inr chunks, w')"
  shows "let n = nat (\<lfloor>D / real_of_int chunkDuration\<rfloor> + 1);
             plan = chunkPlan chunkDuration n;
             extent = (\<lambda>i. chunkExtent D (plan ! i))
         in length chunks = n
            \<and> extractions w' = extractions w @ plan
            \<and> (\<forall>i<n. plan ! i = (int i * chunkDuration, chunkDuration))
            \<and> fst (extent 0) = 0
            \<and> (\<forall>i<n. fst (extent i) \<le> snd (extent i))
            \<and> (\<forall>i. Suc i < n \<longrightarrow> snd (extent i) = fst (extent (Suc i)))
            \<and> snd (extent (n - 1)) = D
            \<and> snd (extent (n - 1)) - fst (extent (n - 1))
                = D - real (n - 1) * real_of_int chunkDuration"
proof -
  have D: "0 \<le> D" using assms(2) by (simp add: maxDuration_def)
  have c: "0 < chunkDuration" by (simp add: chunkDuration_def)
  note plan = split_plan [OF assms(1) D c assms(4)]
  note ext = plan_extents [OF D c]
  have nth: "\<forall>i<nat (\<lfloor>D / real_of_int chunkDuration\<rfloor> + 1).
      chunkPlan chunkDuration (nat (\<lfloor>D / real_of_int chunkDuration\<rfloor> + 1)) ! i
        = (int i * chunkDuration, chunkDuration)"
    by (simp add: chunkPlan_def del: upt_Suc)
  have ord: "\<forall>i<nat (\<lfloor>D / real_of_int chunkDuration\<rfloor> + 1).
      fst (chunkExtent D (chunkPlan chunkDuration (nat (\<lfloor>D / real_of_int chunkDuration\<rfloor> + 1)) ! i))
      \<le> snd (chunkExtent D (chunkPlan chunkDuration (nat (\<lfloor>D / real_of_int chunkDuration\<rfloor> + 1)) ! i))"
    using plan_extent_order [OF D c] by blast
  show ?thesis
    unfolding Let_def
    using plan ext(2-5) nth ord by (intro conjI) simp_all
qed

theorem chunk_plan_covers_duration_witness:
  "ffprobe demo_env ''audio.mp3'' = ProbeDuration 2500
   \<and> real_of_int maxDuration < 2500 \<and> (2500::real) < 2 ^ 63
   \<and> fst (splitAudioIntoChunks demo_env ''audio.mp3'' chunkDuration demo_world)
       = Inr [''/tmp/chunk-0-*.mp3'', ''/tmp/chunk-1-*.mp3'', ''/tmp/chunk-2-*.mp3'']
   \<and> extractions (snd (splitAudioIntoChunks demo_env ''audio.mp3'' chunkDuration demo_world))
       = chunkPlan chunkDuration 3
   \<and> chunkPlan chunkDuration 3 = [(0, 1200), (1200, 1200), (2400, 1200)]
   \<and> chunkExtent 2500 (chunkPlan chunkDuration 3 ! 2) = (2400, 2500)"
proof -
  have p: "ffprobe demo_env ''audio.mp3'' = ProbeDuration 2500"
    by (simp add: demo_env_def)
  have m: "real_of_int maxDuration < 2500" by (simp add: maxDuration_def)
  have r: "(2500::real) < 2 ^ 63" by simp
  have n: "nat (\<lfloor>2500 / real_of_int chunkDuration\<rfloor> + 1) = 3"
    by (simp add: chunkDuration_def)
  have plan3: "chunkPlan chunkDuration 3 = [(0, 1200), (1200, 1200), (2400, 1200)]"
    by (simp add: chunkPlan_def chunkDuration_def upt_rec)
  have e0: "extractions demo_world = []"
    by (simp add: demo_world_def)
  have a: "fst (splitAudioIntoChunks demo_env ''audio.mp3'' chunkDuration demo_world)
       = Inr [''/tmp/chunk-0-*.mp3'', ''/tmp/chunk-1-*.mp3'', ''/tmp/chunk-2-*.mp3'']"
    by (simp add: demo_split)
  have b: "extractions (snd (splitAudioIntoChunks demo_env ''audio.mp3'' chunkDuration demo_world))
       = chunkPlan chunkDuration 3"
    using chunk_plan_covers_duration [OF p m r demo_split] e0
    unfolding Let_def n by (simp add: demo_split)
  have c: "chunkExtent 2500 (chunkPlan chunkDuration 3 ! 2) = (2400, 2500)"
    by (simp add: plan3 chunkExtent_def)
  show ?thesis
    using p m r a b c plan3 by blast
qed

text \<open>
  C2. When the duration is at most the threshold of 1400 seconds, the threshold
  included, \<open>main\<close> makes one call of the transcription client, on the whole file, and
  no extraction; its result is what the client returned, the response decoded from the
  body of the one request. Only a duration above the threshold takes the chunked path.
\<close>

theorem single_call_up_to_threshold:
  "(duration \<le> real_of_int maxDuration \<longrightarrow>
      main_transcribe env mp3File apiKey duration w = transcribeAudio env mp3File apiKey w
      \<and> calls (snd (main_transcribe env mp3File apiKey duration w)) = calls w @ [mp3File]
      \<and> extractions (snd (main_transcribe env mp3File apiKey duration w)) = extractions w
      \<and> files (snd (main_transcribe env mp3File apiKey duration w)) = files w
      \<and> (\<forall>r. fst (main_transcribe env mp3File apiKey duration w) = Inr r \<longrightarrow>
            (\<exists>body. openai_post env mp3File apiKey = Inr (200, body)
                    \<and> json_Unmarshal env body = Inr r)))
   \<and> (real_of_int maxDuration < duration \<longrightarrow>
        main_transcribe env mp3File apiKey duration w =
          transcribeAudioInChunks env mp3File apiKey duration w)
   \<and> maxDuration = 1400"
proof -
  have "\<forall>r. fst (transcribeAudio env mp3File apiKey w) = Inr r \<longrightarrow>
            (\<exists>body. openai_post env mp3File apiKey = Inr (200, body)
                    \<and> json_Unmarshal env body = Inr r)"
  proof (cases "openai_post env mp3File apiKey")
    case (Inl a)
    then show ?thesis
      by (cases a) (simp add: transcribeAudio_def Let_def)
  next
    case (Inr b)
    obtain StatusCode body where b: "b = (StatusCode, body)" by (cases b)
    show ?thesis
    proof (cases "StatusCode = 200")
      case True
      then show ?thesis
        by (cases "json_Unmarshal env body") (simp_all add: transcribeAudio_def Let_def Inr b)
    next
      case False
      then show ?thesis
        by (simp add: transcribeAudio_def Let_def Inr b)
    qed
  qed
  then show ?thesis
    by (simp add: main_transcribe_def transcribeAudio_world maxDuration_def)
qed

theorem single_call_up_to_threshold_witness:
  "(1400::real) \<le> real_of_int maxDuration
   \<and> main_transcribe demo_env ''audio.mp3'' ''key'' 1400 demo_world =
       (Inr \<lparr>resp_Text = ''b'', resp_Segments = [seg_b]\<rparr>, demo_world\<lparr>calls := [''audio.mp3'']\<rparr>)
   \<and> real_of_int maxDuration < 2500
   \<and> fst (main_transcribe demo_env ''audio.mp3'' ''key'' 2500 demo_world) =
       fst (transcribeAudioInChunks demo_env ''audio.mp3'' ''key'' 2500 demo_world)"
proof -
  have t: "transcribeAudio demo_env ''audio.mp3'' ''key'' demo_world =
       (Inr \<lparr>resp_Text = ''b'', resp_Segments = [seg_b]\<rparr>, demo_world\<lparr>calls := [''audio.mp3'']\<rparr>)"
    by (simp add: transcribeAudio_def Let_def eval_env seg_b_def)
  have m1: "(1400::real) \<le> real_of_int maxDuration" and m2: "real_of_int maxDuration < 2500"
    by (simp_all add: maxDuration_def)
  have a: "main_transcribe demo_env ''audio.mp3'' ''key'' 1400 demo_world =
           transcribeAudio demo_env ''audio.mp3'' ''key'' demo_world"
    using single_call_up_to_threshold [of 1400 demo_env "''audio.mp3''" "''key''" demo_world] m1
    by blast
  have b: "main_transcribe demo_env ''audio.mp3'' ''key'' 2500 demo_world =
           transcribeAudioInChunks demo_env ''audio.mp3'' ''key'' 2500 demo_world"
    using single_call_up_to_threshold [of 2500 demo_env "''audio.mp3''" "''key''" demo_world] m2
    by blast
  show ?thesis
    unfolding a b t using m1 m2 by simp
qed

text \<open>
  C3. When the split succeeds and every chunk is transcribed, the merged fragments are
  the fragments of chunk 0, 1, 2, ... in order, each a copy whose start and end are the
  chunk's own plus \<open>i * chunkDuration\<close>; speaker and text are unchanged, and the loop
  leaves the chunk's response as it was.
\<close>

theorem merged_fragments_shifted:
  assumes "splitAudioIntoChunks env audioFile chunkDuration w = (Inr chunks, w1)"
    and "length rs = length chunks"
    and "\<forall>j<length chunks. \<forall>w. fst (transcribeAudio env (chunks ! j) apiKey w) = Inr (rs ! j)"
  shows "(\<exists>text w'. transcribeAudioInChunks env audioFile apiKey duration w =
            (Inr \<lparr>resp_Text = text,
                   resp_Segments =
                     concat (map (\<lambda>i. map (shifted (real i * real_of_int chunkDuration))
                                         (resp_Segments (rs ! i))) [0..<length rs])\<rparr>, w'))
         \<and> seg_Start (shifted offset segment) = seg_Start segment + offset
         \<and> seg_End (shifted offset segment) = seg_End segment + offset
         \<and> seg_Speaker (shifted offset segment) = seg_Speaker segment
         \<and> seg_Text (shifted offset segment) = seg_Text segment
         \<and> shiftLoop offset (resp_Segments transcription) (transcription, allSegments) =
             (transcription, allSegments @ map (shifted offset) (resp_Segments transcription))"
  using inChunks_success [OF assms, of duration]
  by (simp add: shifted_def shiftLoop_eq)

theorem merged_fragments_shifted_witness:
  "(\<exists>plain w'. transcribeAudioInChunks demo_env ''audio.mp3'' ''key'' 2500 demo_world =
      (Inr \<lparr>resp_Text = plain,
             resp_Segments =
               [\<lparr>seg_Speaker = ''A'', seg_Start = 0, seg_End = 1.5, seg_Text = '' hello ''\<rparr>,
                \<lparr>seg_Speaker = ''B'', seg_Start = 2402, seg_End = 2403, seg_Text = ''bye''\<rparr>]\<rparr>,
       w'))
   \<and> seg_Start seg_b = 2 \<and> seg_End seg_b = 3"
  using merged_fragments_shifted
    [OF demo_split _ demo_responses_all, where duration = 2500 and apiKey = "''key''"]
  by (simp add: upt_rec shifted_def seg_a1_def seg_b_def chunkDuration_def)

text \<open>
  C4, as stated, fails: with three chunks whose plain texts are \<open>a\<close>, empty and \<open>b\<close>
  the merged text is \<open>a b\<close>, while joining the three texts with single spaces and
  trimming gives \<open>a\<close>, two spaces, \<open>b\<close>.
\<close>

theorem merged_text_join_counterexample:
  "fst (splitAudioIntoChunks demo_env ''audio.mp3'' chunkDuration demo_world) =
     Inr [''/tmp/chunk-0-*.mp3'', ''/tmp/chunk-1-*.mp3'', ''/tmp/chunk-2-*.mp3'']
   \<and> fst (transcribeAudio demo_env ''/tmp/chunk-0-*.mp3'' ''key'' demo_world) =
       Inr \<lparr>resp_Text = ''a'', resp_Segments = [seg_a1]\<rparr>
   \<and> fst (transcribeAudio demo_env ''/tmp/chunk-1-*.mp3'' ''key'' demo_world) =
       Inr \<lparr>resp_Text = [], resp_Segments = []\<rparr>
   \<and> fst (transcribeAudio demo_env ''/tmp/chunk-2-*.mp3'' ''key'' demo_world) =
       Inr \<lparr>resp_Text = ''b'', resp_Segments = [seg_b]\<rparr>
   \<and> fst (transcribeAudioInChunks demo_env ''audio.mp3'' ''key'' 2500 demo_world) =
       Inr \<lparr>resp_Text = ''a b'', resp_Segments = [shifted 0 seg_a1, shifted 2400 seg_b]\<rparr>
   \<and> TrimSpace (joinSpace [''a'', [], ''b'']) = ''a  b''
   \<and> ''a b'' \<noteq> TrimSpace (joinSpace [''a'', [], ''b''])"
proof -
  have merged: "fst (transcribeAudioInChunks demo_env ''audio.mp3'' ''key'' 2500 demo_world) =
       Inr \<lparr>resp_Text = TrimSpace ''a b '',
             resp_Segments = [shifted 0 seg_a1, shifted 2400 seg_b]\<rparr>"
    using inChunks_success
      [OF demo_split _ demo_responses_all, where duration = 2500 and apiKey = "''key''"]
    by (simp add: upt_rec chunkDuration_def)
  have t1: "TrimSpace ''a b '' = ''a b''" by (simp add: eval_trim)
  have t2: "TrimSpace (joinSpace [''a'', [], ''b'']) = ''a  b''" by (simp add: eval_trim)
  show ?thesis
    unfolding merged t1 t2 by (simp add: demo_split demo_responses)
qed

text \<open>
  C4, amended. When the split succeeds and every chunk is transcribed, the merged plain
  text is the plain texts of the chunks that are not empty, in order, joined by single
  spaces, with leading and trailing white space trimmed: a chunk with an empty plain
  text adds neither text nor separator.
\<close>

theorem merged_text_skips_empty:
  assumes "splitAudioIntoChunks env audioFile chunkDuration w = (Inr chunks, w1)"
    and "length rs = length chunks"
    and "\<forall>j<length chunks. \<forall>w. fst (transcribeAudio env (chunks ! j) apiKey w) = Inr (rs ! j)"
  shows "\<exists>segments w'. transcribeAudioInChunks env audioFile apiKey duration w =
            (Inr \<lparr>resp_Text = TrimSpace (joinSpace (filter (\<lambda>t. t \<noteq> []) (map resp_Text rs))),
                   resp_Segments = segments\<rparr>, w')"
  using inChunks_success [OF assms, of duration]
  by (simp add: TrimSpace_fullText)

theorem merged_text_skips_empty_witness:
  "\<exists>segments w'. transcribeAudioInChunks demo_env ''audio.mp3'' ''key'' 2500 demo_world =
      (Inr \<lparr>resp_Text = ''a b'', resp_Segments = segments\<rparr>, w')"
proof -
  have "TrimSpace (joinSpace [''a'', ''b'']) = ''a b''" by (simp add: eval_trim)
  then show ?thesis
    using merged_text_skips_empty
      [OF demo_split _ demo_responses_all, where duration = 2500 and apiKey = "''key''"]
    by simp
qed

text \<open>
  C5. For a non-empty fragment sequence the renderer writes, fragment by fragment: for
  the first fragment a header line \<open>[start - end] speaker:\<close> and the trimmed text on a
  line of its own; for a fragment whose speaker differs from the previous one a blank
  line, the header line and the text line; for a fragment of the same speaker only
  \<open>[start - end] \<close> and the text line. So a run of fragments of one speaker has one
  header and no separating blank line, and every change of speaker adds exactly one.
  The asynchronous program does the same with the label \<open>Speaker\<close> before the speaker.
\<close>

theorem renderer_speaker_blocks:
  "rendered text [f] = headerLine f @ textLine f
   \<and> (segments \<noteq> [] \<and> speakerLabel g \<noteq> speakerLabel (last segments) \<longrightarrow>
        rendered text (segments @ [g]) = rendered text segments @ [nl] @ headerLine g @ textLine g)
   \<and> (segments \<noteq> [] \<and> speakerLabel g = speakerLabel (last segments) \<longrightarrow>
        rendered text (segments @ [g]) = rendered text segments @ stamp g @ textLine g)
   \<and> ((\<forall>g \<in> set gs. speakerLabel g = speakerLabel f) \<longrightarrow>
        rendered text (f # gs) =
          headerLine f @ textLine f @ concat (map (\<lambda>g. stamp g @ textLine g) gs))
   \<and> rendered_async transcription [u] = headerLine_async u @ textLine_async u
   \<and> (utterances \<noteq> [] \<and> speakerLabel_async v \<noteq> speakerLabel_async (last utterances) \<longrightarrow>
        rendered_async transcription (utterances @ [v]) =
          rendered_async transcription utterances @ [nl] @ headerLine_async v @ textLine_async v)
   \<and> (utterances \<noteq> [] \<and> speakerLabel_async v = speakerLabel_async (last utterances) \<longrightarrow>
        rendered_async transcription (utterances @ [v]) =
          rendered_async transcription utterances @ stamp_async v @ textLine_async v)
   \<and> ((\<forall>v \<in> set vs. speakerLabel_async v = speakerLabel_async u) \<longrightarrow>
        rendered_async transcription (u # vs) =
          headerLine_async u @ textLine_async u
          @ concat (map (\<lambda>v. stamp_async v @ textLine_async v) vs))"
  by (intro conjI impI rendered_single rendered_change rendered_same rendered_run
      rendered_async_single rendered_async_change rendered_async_same rendered_async_run)
     simp_all

theorem renderer_speaker_blocks_witness:
  "[seg_a1] \<noteq> [] \<and> speakerLabel seg_a2 = speakerLabel (last [seg_a1])
   \<and> [seg_a1, seg_a2] \<noteq> [] \<and> speakerLabel seg_u \<noteq> speakerLabel (last [seg_a1, seg_a2])
   \<and> rendered ''x'' [seg_a1, seg_a2] =
         ''[00:00:00 - 00:00:01] A:'' @ [nl] @ ''hello'' @ [nl]
         @ ''[00:00:01 - 00:00:03] again'' @ [nl]
   \<and> rendered ''x'' [seg_a1, seg_a2, seg_u] =
         ''[00:00:00 - 00:00:01] A:'' @ [nl] @ ''hello'' @ [nl]
         @ ''[00:00:01 - 00:00:03] again'' @ [nl]
         @ [nl] @ ''[00:00:03 - 01:01:01] Unknown:'' @ [nl] @ ''who'' @ [nl]
   \<and> [utt_a] \<noteq> [] \<and> speakerLabel_async utt_b \<noteq> speakerLabel_async (last [utt_a])
   \<and> rendered_async job_sample [utt_a, utt_b] =
         ''[00:00:00 - 00:00:01] Speaker A:'' @ [nl] @ ''hello'' @ [nl]
         @ [nl] @ ''[00:00:01 - 00:01:01] Speaker B:'' @ [nl] @ ''hi'' @ [nl]"
proof -
  have s: "speakerLabel seg_a2 = speakerLabel (last [seg_a1])"
    "speakerLabel seg_u \<noteq> speakerLabel (last [seg_a1, seg_a2])"
    "\<forall>g \<in> set [seg_a2]. speakerLabel g = speakerLabel seg_a1"
    "speakerLabel_async utt_b \<noteq> speakerLabel_async (last [utt_a])"
    by (simp_all add: speakerLabel_def speakerLabel_async_def seg_a1_def seg_a2_def seg_u_def
        utt_a_def utt_b_def)
  note t1 = renderer_speaker_blocks [of "''x''" seg_a1 "[seg_a1]" seg_a2 "[seg_a2]"]
  note t2 = renderer_speaker_blocks [of "''x''" seg_a1 "[seg_a1, seg_a2]" seg_u "[]" job_sample utt_a "[utt_a]" utt_b]
  have r2: "rendered ''x'' [seg_a1, seg_a2] =
         ''[00:00:00 - 00:00:01] A:'' @ [nl] @ ''hello'' @ [nl]
         @ ''[00:00:01 - 00:00:03] again'' @ [nl]"
    using t1 s by (simp add: sample_lines)
  have r3: "rendered ''x'' [seg_a1, seg_a2, seg_u] =
         ''[00:00:00 - 00:00:01] A:'' @ [nl] @ ''hello'' @ [nl]
         @ ''[00:00:01 - 00:00:03] again'' @ [nl]
         @ [nl] @ ''[00:00:03 - 01:01:01] Unknown:'' @ [nl] @ ''who'' @ [nl]"
    using t2 s r2 by (simp add: sample_lines)
  have a2: "rendered_async job_sample [utt_a, utt_b] =
         ''[00:00:00 - 00:00:01] Speaker A:'' @ [nl] @ ''hello'' @ [nl]
         @ [nl] @ ''[00:00:01 - 00:01:01] Speaker B:'' @ [nl] @ ''hi'' @ [nl]"
    using t2 s by (simp add: sample_lines_async)
  show ?thesis
    using s r2 r3 a2 by simp
qed

text \<open>
  C6. For a non-negative number of seconds whose nanoseconds stay below \<open>2 ^ 53\<close> (some
  104 days: up to there a float64 holds every nanosecond count exactly), the formatter
  prints the hours \<open>\<lfloor>seconds / 3600\<rfloor>\<close>, the minutes \<open>\<lfloor>seconds / 60\<rfloor> mod 60\<close> and the
  seconds \<open>\<lfloor>seconds\<rfloor> mod 60\<close>, each with at least two digits and separated by colons:
  the fraction is dropped, never rounded. 0 prints as 00:00:00, 3661.9 as 01:01:01 and
  59.999 as 00:00:59.
\<close>

theorem formatTimestamp_truncates:
  assumes "0 \<le> seconds" and "seconds * 1000000000 < 2 ^ 53"
  shows "formatTimestamp seconds =
           fmt_02d \<lfloor>seconds / 3600\<rfloor> @ '':'' @ fmt_02d (\<lfloor>seconds / 60\<rfloor> mod 60) @ '':''
           @ fmt_02d (\<lfloor>seconds\<rfloor> mod 60)
         \<and> 2 \<le> length (fmt_02d \<lfloor>seconds / 3600\<rfloor>)
         \<and> length (fmt_02d (\<lfloor>seconds / 60\<rfloor> mod 60)) = 2
         \<and> length (fmt_02d (\<lfloor>seconds\<rfloor> mod 60)) = 2
         \<and> formatTimestamp 0 = ''00:00:00''
         \<and> formatTimestamp 3661.9 = ''01:01:01''
         \<and> formatTimestamp 59.999 = ''00:00:59''"
proof -
  have "0 \<le> \<lfloor>seconds / 3600\<rfloor>" using assms(1) by simp
  then have "2 \<le> length (fmt_02d \<lfloor>seconds / 3600\<rfloor>)" by (rule length_fmt_02d_ge)
  moreover have "length (fmt_02d (\<lfloor>seconds / 60\<rfloor> mod 60)) = 2"
    by (rule length_fmt_02d_field) simp_all
  moreover have "length (fmt_02d (\<lfloor>seconds\<rfloor> mod 60)) = 2"
    by (rule length_fmt_02d_field) simp_all
  ultimately show ?thesis
    using formatTimestamp_fields [OF assms(1)] formatTimestamp_zero formatTimestamp_3661_9 formatTimestamp_59_999 by simp
qed

theorem formatTimestamp_truncates_witness:
  "(0::real) \<le> 3725.5 \<and> (3725.5::real) * 1000000000 < 2 ^ 53
   \<and> formatTimestamp 3725.5 = ''01:02:05''"
  using formatTimestamp_truncates [of "3725.5"]
  by (simp add: fmt_02d_def showNat_small digit_def)

text \<open>
  C7. Let the polls before poll \<open>n + k\<close> of a job have answered \<open>queued\<close> or
  \<open>processing\<close>, and let poll \<open>n + k\<close> answer with a body that decodes to \<open>t1\<close>. If its
  status is \<open>queued\<close> or \<open>processing\<close> the loop sleeps three seconds once more and polls
  again; if it is \<open>completed\<close> the loop returns \<open>t1\<close>; if it is \<open>error\<close> it fails with the
  message of the service; on any other status it fails with the unexpected status. In
  each case the loop has slept three seconds after every pending answer and not
  otherwise.
\<close>

theorem poll_loop_outcomes:
  assumes "pendingFor env pollingURL apiKey n transcription k = Some tk"
    and "assembly_poll env pollingURL apiKey (n + k) = Inr (StatusCode, body)"
    and "json_Unmarshal_job env body tk = Inr t1"
  shows "(job_Status t1 = ''queued'' \<or> job_Status t1 = ''processing'' \<longrightarrow>
            pollLoop env pollingURL apiKey n transcription w =
            pollLoop env pollingURL apiKey (n + k + 1) t1
              (w\<lparr>sleeps := sleeps w @ replicate (Suc k) (3 * Second)\<rparr>))
         \<and> (job_Status t1 = ''completed'' \<longrightarrow>
            pollLoop env pollingURL apiKey n transcription w =
            Some (Inr t1, w\<lparr>sleeps := sleeps w @ replicate k (3 * Second)\<rparr>))
         \<and> (job_Status t1 = ''error'' \<longrightarrow>
            pollLoop env pollingURL apiKey n transcription w =
            Some (Inl (Error (''transcription failed: '' @ job_Error t1)),
                  w\<lparr>sleeps := sleeps w @ replicate k (3 * Second)\<rparr>))
         \<and> (job_Status t1 \<noteq> ''queued'' \<and> job_Status t1 \<noteq> ''processing''
              \<and> job_Status t1 \<noteq> ''completed'' \<and> job_Status t1 \<noteq> ''error'' \<longrightarrow>
            pollLoop env pollingURL apiKey n transcription w =
            Some (Inl (Error (''unexpected status: '' @ job_Status t1)),
                  w\<lparr>sleeps := sleeps w @ replicate k (3 * Second)\<rparr>))
         \<and> 3 * Second = 3000000000"
proof -
  let ?w = "w\<lparr>sleeps := sleeps w @ replicate k (3 * Second)\<rparr>"
  have run: "pollLoop env pollingURL apiKey n transcription w =
             pollLoop env pollingURL apiKey (n + k) tk ?w"
    by (rule pollLoop_pending [OF assms(1)])
  have pending: "job_Status t1 = ''queued'' \<or> job_Status t1 = ''processing'' \<Longrightarrow>
      pollLoop env pollingURL apiKey (n + k) tk ?w =
      pollLoop env pollingURL apiKey (n + k + 1) t1
        (w\<lparr>sleeps := sleeps w @ replicate (Suc k) (3 * Second)\<rparr>)"
    by (subst pollLoop.simps) (auto simp: assms(2,3) replicate_append_same)
  have terminal: "job_Status t1 \<noteq> ''queued'' \<Longrightarrow> job_Status t1 \<noteq> ''processing'' \<Longrightarrow>
      pollLoop env pollingURL apiKey (n + k) tk ?w =
      Some (if job_Status t1 = ''completed'' then Inr t1
            else if job_Status t1 = ''error''
            then Inl (Error (''transcription failed: '' @ job_Error t1))
            else Inl (Error (''unexpected status: '' @ job_Status t1)), ?w)"
    by (rule pollLoop_terminal [OF assms(2,3)])
  show ?thesis
    unfolding run using pending terminal
    by (auto simp: Second_def Nanosecond_def)
qed

theorem poll_loop_outcomes_witness:
  "pollLoop demo_env ''url'' ''key'' 0 job_sample demo_world =
     Some (Inr (job_sample\<lparr>job_Status := ''completed''\<rparr>),
           demo_world\<lparr>sleeps := [3000000000, 3000000000]\<rparr>)
   \<and> pollLoop (demo_env\<lparr>assembly_poll := (\<lambda>pollingURL apiKey n. Inr (200, ''error''))\<rparr>)
        ''url'' ''key'' 0 (job_sample\<lparr>job_Error := ''bad audio''\<rparr>) demo_world =
     Some (Inl (Error ''transcription failed: bad audio''), demo_world)
   \<and> pollLoop (demo_env\<lparr>assembly_poll := (\<lambda>pollingURL apiKey n. Inr (200, ''paused''))\<rparr>)
        ''url'' ''key'' 0 job_sample demo_world =
     Some (Inl (Error ''unexpected status: paused''), demo_world)
   \<and> pollLoop demo_env ''url'' ''key'' 0 job_sample demo_world =
     pollLoop demo_env ''url'' ''key'' 1 (job_sample\<lparr>job_Status := ''processing''\<rparr>)
       (demo_world\<lparr>sleeps := [3000000000]\<rparr>)"
proof -
  have p2: "pendingFor demo_env ''url'' ''key'' 0 job_sample (Suc (Suc 0)) =
            Some (job_sample\<lparr>job_Status := ''processing''\<rparr>)"
    by (simp add: demo_env_def)
  have a: "pollLoop demo_env ''url'' ''key'' 0 job_sample demo_world =
     Some (Inr (job_sample\<lparr>job_Status := ''completed''\<rparr>),
           demo_world\<lparr>sleeps := [3000000000, 3000000000]\<rparr>)"
    using poll_loop_outcomes [OF p2, of 200 "''completed''"
        "job_sample\<lparr>job_Status := ''completed''\<rparr>" demo_world]
    by (simp add: demo_env_def demo_world_def Second_def Nanosecond_def)
  let ?e = "demo_env\<lparr>assembly_poll := (\<lambda>pollingURL apiKey n. Inr (200, ''error''))\<rparr>"
  have p0: "pendingFor env ''url'' ''key'' 0 t 0 = Some t" for env t
    by simp
  have b: "pollLoop ?e ''url'' ''key'' 0 (job_sample\<lparr>job_Error := ''bad audio''\<rparr>) demo_world =
     Some (Inl (Error ''transcription failed: bad audio''), demo_world)"
    using poll_loop_outcomes [OF p0, of ?e 200 "''error''"
        "job_sample\<lparr>job_Error := ''bad audio''\<rparr>"
        "job_sample\<lparr>job_Error := ''bad audio'', job_Status := ''error''\<rparr>" demo_world]
    by (simp add: demo_env_def demo_world_def)
  let ?u = "demo_env\<lparr>assembly_poll := (\<lambda>pollingURL apiKey n. Inr (200, ''paused''))\<rparr>"
  have c: "pollLoop ?u ''url'' ''key'' 0 job_sample demo_world =
     Some (Inl (Error ''unexpected status: paused''), demo_world)"
    using poll_loop_outcomes [OF p0, of ?u 200 "''paused''" job_sample
        "job_sample\<lparr>job_Status := ''paused''\<rparr>" demo_world]
    by (simp add: demo_env_def demo_world_def)
  have d: "pollLoop demo_env ''url'' ''key'' 0 job_sample demo_world =
     pollLoop demo_env ''url'' ''key'' 1 (job_sample\<lparr>job_Status := ''processing''\<rparr>)
       (demo_world\<lparr>sleeps := [3000000000]\<rparr>)"
    using poll_loop_outcomes [OF p0, of demo_env 200 "''processing''" job_sample
        "job_sample\<lparr>job_Status := ''processing''\<rparr>" demo_world]
    by (simp add: demo_env_def demo_world_def Second_def Nanosecond_def)
  show ?thesis
    using b c d unfolding a by simp
qed

text \<open>
  C8 holds for the upload, the job submission and the synchronous transcription, and
  fails for the polls: the poll loop never reads the status code. When the service
  answers a poll with status 500 and a body that is not JSON, the program stops with
  the decoder's message, which holds neither the status code nor the body.
\<close>

theorem poll_status_code_unreported:
  "assembly_poll failing_env (assemblyAIBaseURL @ ''/transcript/'') ''key'' 0 =
     Inr (500, ''Internal Server Error'')
   \<and> main_async failing_env [''transcribe'', ''talk.mp4''] demo_world =
       Some ((1, ''Error transcribing audio: failed to parse polling response: ''
                 @ ''invalid character I looking for beginning of value'' @ [nl]),
             demo_world\<lparr>files := {''/tmp/transcribe-*.mp3''}\<rparr>)
   \<and> \<not> sublist (fmt_d 500)
         (''Error transcribing audio: failed to parse polling response: ''
          @ ''invalid character I looking for beginning of value'' @ [nl])
   \<and> \<not> sublist ''Internal Server Error''
         (''Error transcribing audio: failed to parse polling response: ''
          @ ''invalid character I looking for beginning of value'' @ [nl])"
proof -
  have a: "main_async failing_env [''transcribe'', ''talk.mp4''] demo_world =
       Some ((1, ''Error transcribing audio: failed to parse polling response: ''
                 @ ''invalid character I looking for beginning of value'' @ [nl]),
             demo_world\<lparr>files := {''/tmp/transcribe-*.mp3''}\<rparr>)"
    by (simp add: main_async_def failing_env_def demo_env_def demo_world_def convertToMP3_def
        uploadAudio_def transcribeAudio_async_def Let_def pollLoop.simps)
  have b: "\<not> sublist (fmt_d 500)
         (''Error transcribing audio: failed to parse polling response: ''
          @ ''invalid character I looking for beginning of value'' @ [nl])"
    by (simp add: fmt_d_def showNat_small showNat_big digit_def sublist_Cons_right nl_def)
  have c: "\<not> sublist ''Internal Server Error''
         (''Error transcribing audio: failed to parse polling response: ''
          @ ''invalid character I looking for beginning of value'' @ [nl])"
    by (simp add: sublist_Cons_right nl_def)
  show ?thesis
    using a b c by (simp add: failing_env_def)
qed

text \<open>
  C9. Whatever the temporary-file creation, the extractions and the transcriptions do,
  no file exists after \<open>transcribeAudioInChunks\<close> that did not exist before it; when
  the names handed out for the chunks are new, the files are exactly those of before;
  and when the split has succeeded, none of its chunk files is left, whether the
  transcriptions succeed or one of them fails; in that case the error returned is the
  client's, wrapped with the index of the first chunk that failed.
\<close>

theorem chunk_files_always_removed:
  "files (snd (transcribeAudioInChunks env audioFile apiKey duration w)) \<subseteq> files w
   \<and> ((\<forall>i p. os_CreateTemp env (''chunk-'' @ fmt_d i @ ''-*.mp3'') = Inr p \<longrightarrow> p \<notin> files w) \<longrightarrow>
        files (snd (transcribeAudioInChunks env audioFile apiKey duration w)) = files w)
   \<and> (\<forall>chunks w1. splitAudioIntoChunks env audioFile chunkDuration w = (Inr chunks, w1) \<longrightarrow>
        set chunks \<inter> files (snd (transcribeAudioInChunks env audioFile apiKey duration w)) = {})
   \<and> (\<forall>chunks w1 j err.
        splitAudioIntoChunks env audioFile chunkDuration w = (Inr chunks, w1)
        \<and> j < length chunks
        \<and> (\<forall>m<j. \<forall>w. \<exists>r. fst (transcribeAudio env (chunks ! m) apiKey w) = Inr r)
        \<and> (\<forall>w. fst (transcribeAudio env (chunks ! j) apiKey w) = Inl err) \<longrightarrow>
        fst (transcribeAudioInChunks env audioFile apiKey duration w) =
          Inl (wrap (''failed to transcribe chunk '' @ fmt_d (int j) @ '': '') err))"
proof (intro conjI allI impI)
  show "files (snd (transcribeAudioInChunks env audioFile apiKey duration w)) \<subseteq> files w"
    by (rule inChunks_files)
next
  assume "\<forall>i p. os_CreateTemp env (''chunk-'' @ fmt_d i @ ''-*.mp3'') = Inr p \<longrightarrow> p \<notin> files w"
  then show "files (snd (transcribeAudioInChunks env audioFile apiKey duration w)) = files w"
    by (rule inChunks_fresh)
next
  fix chunks w1
  assume "splitAudioIntoChunks env audioFile chunkDuration w = (Inr chunks, w1)"
  then show "set chunks \<inter> files (snd (transcribeAudioInChunks env audioFile apiKey duration w)) = {}"
    by (rule inChunks_chunks_gone)
next
  fix chunks w1 j err
  assume "splitAudioIntoChunks env audioFile chunkDuration w = (Inr chunks, w1)
        \<and> j < length chunks
        \<and> (\<forall>m<j. \<forall>w. \<exists>r. fst (transcribeAudio env (chunks ! m) apiKey w) = Inr r)
        \<and> (\<forall>w. fst (transcribeAudio env (chunks ! j) apiKey w) = Inl err)"
  then show "fst (transcribeAudioInChunks env audioFile apiKey duration w) =
          Inl (wrap (''failed to transcribe chunk '' @ fmt_d (int j) @ '': '') err)"
    using inChunks_failure [of env audioFile w chunks w1 j apiKey err duration] by blast
qed

theorem chunk_files_always_removed_witness:
  "files (snd (transcribeAudioInChunks demo_env ''audio.mp3'' ''key'' 2500 demo_world)) = {}
   \<and> fst (splitAudioIntoChunks flaky_env ''audio.mp3'' chunkDuration demo_world) =
       Inr [''/tmp/chunk-0-*.mp3'', ''/tmp/chunk-1-*.mp3'', ''/tmp/chunk-2-*.mp3'']
   \<and> fst (transcribeAudioInChunks flaky_env ''audio.mp3'' ''key'' 2500 demo_world) =
       Inl (Error ''failed to transcribe chunk 1: API request failed with status 503: busy'')
   \<and> set [''/tmp/chunk-0-*.mp3'', ''/tmp/chunk-1-*.mp3'', ''/tmp/chunk-2-*.mp3'']
       \<inter> files (snd (transcribeAudioInChunks flaky_env ''audio.mp3'' ''key'' 2500 demo_world))
       = {}"
proof -
  have fresh: "\<forall>i p. os_CreateTemp demo_env (''chunk-'' @ fmt_d i @ ''-*.mp3'') = Inr p \<longrightarrow>
      p \<notin> files demo_world"
    by (simp add: demo_world_def)
  have e: "files demo_world = {}" by (simp add: demo_world_def)
  have a: "files (snd (transcribeAudioInChunks demo_env ''audio.mp3'' ''key'' 2500 demo_world)) = {}"
    using chunk_files_always_removed [of demo_env "''audio.mp3''" "''key''" 2500 demo_world]
      fresh e by simp
  note flaky = chunk_files_always_removed [of flaky_env "''audio.mp3''" "''key''" 2500 demo_world]
  have b: "set [''/tmp/chunk-0-*.mp3'', ''/tmp/chunk-1-*.mp3'', ''/tmp/chunk-2-*.mp3'']
       \<inter> files (snd (transcribeAudioInChunks flaky_env ''audio.mp3'' ''key'' 2500 demo_world))
       = {}"
    using flaky flaky_split by blast
  have first: "\<forall>m<1. \<forall>w. \<exists>r. fst (transcribeAudio flaky_env
        ([''/tmp/chunk-0-*.mp3'', ''/tmp/chunk-1-*.mp3'', ''/tmp/chunk-2-*.mp3''] ! m) ''key'' w)
        = Inr r"
    by (simp add: flaky_responses)
  have second: "\<forall>w. fst (transcribeAudio flaky_env
        ([''/tmp/chunk-0-*.mp3'', ''/tmp/chunk-1-*.mp3'', ''/tmp/chunk-2-*.mp3''] ! 1) ''key'' w)
        = Inl (Error ''API request failed with status 503: busy'')"
    by (simp add: flaky_responses)
  have "fst (transcribeAudioInChunks flaky_env ''audio.mp3'' ''key'' 2500 demo_world) =
     Inl (wrap (''failed to transcribe chunk '' @ fmt_d (int 1) @ '': '')
            (Error ''API request failed with status 503: busy''))"
    using flaky [THEN conjunct2, THEN conjunct2, THEN conjunct2, rule_format,
        of "[''/tmp/chunk-0-*.mp3'', ''/tmp/chunk-1-*.mp3'', ''/tmp/chunk-2-*.mp3'']" _ 1
           "Error ''API request failed with status 503: busy''"]
      flaky_split first second by simp
  then have c: "fst (transcribeAudioInChunks flaky_env ''audio.mp3'' ''key'' 2500 demo_world) =
       Inl (Error ''failed to transcribe chunk 1: API request failed with status 503: busy'')"
    by (simp add: fmt_d_def showNat_small digit_def)
  show ?thesis
    using a b c by (simp add: flaky_split)
qed

text \<open>
  C10, as stated, fails: a plain text that ends with a newline, and a fragment that
  opens a block with a text of white space only, both give two trailing newlines.
\<close>

theorem trailing_newline_counterexample:
  "rendered (''hi'' @ [nl]) [] = ''hi'' @ [nl, nl]
   \<and> \<not> endsWithOneNewline (rendered (''hi'' @ [nl]) [])
   \<and> rendered [] [seg_blank] = ''[00:00:00 - 00:00:01] A:'' @ [nl, nl]
   \<and> \<not> endsWithOneNewline (rendered [] [seg_blank])"
proof -
  have a: "rendered (''hi'' @ [nl]) [] = ''hi'' @ [nl, nl]"
    by (simp add: rendered_def saveTranscription_output_def)
  have b: "rendered [] [seg_blank] = ''[00:00:00 - 00:00:01] A:'' @ [nl, nl]"
    by (simp add: rendered_single headerLine_def textLine_def stamp_def speakerLabel_def
        seg_blank_def eval_time eval_trim)
  show ?thesis
    unfolding a b by (simp add: endsWithOneNewline_def)
qed

text \<open>
  C10, amended. The rendered text always ends with a newline. Without fragments it
  ends with exactly one newline if and only if the plain text is empty or does not end
  with a newline; with fragments, if and only if the last fragment does not both open
  a speaker block and have a text that is empty once trimmed. With fragments the
  output begins with the header line of the first fragment, hence with a bracket and
  never with a blank line, and the label of that header is not empty.
\<close>

theorem rendered_trailing_newline:
  "(\<exists>body. rendered text segments = body @ [nl])
   \<and> (segments = [] \<longrightarrow>
        (endsWithOneNewline (rendered text segments) \<longleftrightarrow> text = [] \<or> last text \<noteq> nl))
   \<and> (segments \<noteq> [] \<longrightarrow>
        (endsWithOneNewline (rendered text segments) \<longleftrightarrow>
           \<not> (opensBlock segments \<and> TrimSpace (seg_Text (last segments)) = []))
        \<and> prefix (headerLine (hd segments)) (rendered text segments)
        \<and> hd (rendered text segments) = CHR ''[''
        \<and> speakerLabel (hd segments) \<noteq> [])"
proof (intro conjI impI)
  show "\<exists>body. rendered text segments = body @ [nl]"
  proof (cases "segments = []")
    case True
    then show ?thesis by (simp add: rendered_def saveTranscription_output_def)
  next
    case False
    then show ?thesis by (rule rendered_ends_nl)
  qed
next
  assume "segments = []"
  then have "rendered text segments = text @ [nl]"
    by (simp add: rendered_def saveTranscription_output_def)
  then show "endsWithOneNewline (rendered text segments) \<longleftrightarrow> text = [] \<or> last text \<noteq> nl"
    by (simp add: endsWithOneNewline_snoc)
next
  assume ne: "segments \<noteq> []"
  show "endsWithOneNewline (rendered text segments) \<longleftrightarrow>
           \<not> (opensBlock segments \<and> TrimSpace (seg_Text (last segments)) = [])"
    by (rule rendered_one_newline [OF ne])
  obtain f rest where fr: "segments = f # rest" using ne by (cases segments) auto
  show pre: "prefix (headerLine (hd segments)) (rendered text segments)"
    unfolding fr by (simp add: rendered_begins)
  have "hd (headerLine (hd segments)) = CHR ''[''" and "headerLine (hd segments) \<noteq> []"
    by (simp_all add: headerLine_def stamp_def)
  then show "hd (rendered text segments) = CHR ''[''"
    using pre by (auto simp: prefix_def)
  show "speakerLabel (hd segments) \<noteq> []"
    by (rule speakerLabel_nonempty)
qed

theorem rendered_trailing_newline_witness:
  "[seg_a1, seg_a2] \<noteq> []
   \<and> endsWithOneNewline (rendered ''x'' [seg_a1, seg_a2])
   \<and> prefix (''[00:00:00 - 00:00:01] A:'' @ [nl]) (rendered ''x'' [seg_a1, seg_a2])
   \<and> endsWithOneNewline (rendered ''plain text'' [])"
proof -
  have ne: "[seg_a1, seg_a2] \<noteq> []" by simp
  have op: "\<not> opensBlock [seg_a1, seg_a2]"
    by (simp add: opensBlock_def speakerLabel_def seg_a1_def seg_a2_def)
  have nl: "last ''plain text'' \<noteq> nl" by (simp add: nl_def)
  show ?thesis
    using rendered_trailing_newline [of "''x''" "[seg_a1, seg_a2]"]
      rendered_trailing_newline [of "''plain text''" "[]"] ne op nl
    by (simp add: sample_lines)
qed

end
